theory Spec2Isabelle
  imports Main "HOL-Library.Sublist" "HOL-Library.Product_Lexorder" "HOL-Library.Multiset"
begin

section \<open>Text\<close>

text \<open>
  A Python \<open>str\<close> is a sequence of Unicode code points: slicing (\<open>commit[:80]\<close>) and
  \<open>len\<close> count code points, not bytes. It is modelled as a list of code points;
  \<open>u\<close> embeds an ASCII literal.
\<close>

type_synonym pystr = "nat list"

definition u :: "string \<Rightarrow> pystr" where
  "u s = map of_char s"

text \<open>
  \<open>str.lower()\<close>. Code points outside \<open>A\<close>..\<open>Z\<close> are left as they are: the Unicode case
  tables of the interpreter are not modelled. The only use of \<open>lower\<close> is the search for
  three ASCII keywords below.
\<close>

definition lower_cp :: "nat \<Rightarrow> nat" where
  "lower_cp c = (if 65 \<le> c \<and> c \<le> 90 then c + 32 else c)"

definition lower :: "pystr \<Rightarrow> pystr" where
  "lower s = map lower_cp s"

text \<open>\<open>s.split('\n')[0]\<close>: the text before the first newline (all of it when there is none).\<close>

definition first_line :: "pystr \<Rightarrow> pystr" where
  "first_line s = takeWhile (\<lambda>c. c \<noteq> 10) s"

text \<open>\<open>sep.join(xs)\<close>\<close>

fun join :: "pystr \<Rightarrow> pystr list \<Rightarrow> pystr" where
  "join sep [] = []"
| "join sep [x] = x"
| "join sep (x # y # ys) = x @ sep @ join sep (y # ys)"

text \<open>\<open>str(n)\<close> for a Python \<open>int\<close>: decimal, with a minus sign when negative.\<close>

fun digits :: "nat \<Rightarrow> pystr" where
  "digits n = (if n < 10 then [48 + n] else digits (n div 10) @ [48 + n mod 10])"

definition str_int :: "int \<Rightarrow> pystr" where
  "str_int i = (if i < 0 then 45 # digits (nat (- i)) else digits (nat i))"

section \<open>Parsed JSON bodies and HTTP responses\<close>

text \<open>
  \<open>response.json()\<close> gives a JSON object or a JSON array of objects. An object is a
  dictionary; the model keeps the keys the program reads, each absent (\<open>None\<close>) or present
  with a value of the type the GitHub API gives it, and the names of the keys it does not
  read (\<open>other_keys\<close>). \<open>j_description\<close> is \<open>Some None\<close> for a JSON \<open>null\<close>. Values of
  other types are outside the model.
\<close>

record commit_obj =
  message :: "pystr option"

record json_obj =
  stargazers_count :: "int option"
  j_description :: "pystr option option"
  j_created_at :: "pystr option"
  j_updated_at :: "pystr option"
  name :: "pystr option"
  commit :: "commit_obj option"
  j_ahead_by :: "int option"
  j_behind_by :: "int option"
  other_keys :: "pystr list"

datatype body = Obj json_obj | Arr "json_obj list"

text \<open>
  A \<open>requests.Response\<close>: status, reason phrase, final URL, body text, and what
  \<open>response.json()\<close> does on it: raise a decoding error (with its message) or return the
  parsed body.
\<close>

record response =
  status_code :: int
  reason :: pystr
  resp_url :: pystr
  body_text :: pystr
  json :: "pystr + body"

datatype exn =
    KeyError pystr
  | AttributeError pystr
  | TypeError pystr
  | RequestException pystr
  | HTTPError pystr response
  | JSONDecodeError pystr
  | OSError pystr

text \<open>A name between single quotes (code point 39), as the interpreter's messages show it.\<close>

definition quoted :: "pystr \<Rightarrow> pystr" where
  "quoted k = [39] @ k @ [39]"

text \<open>\<open>str(e)\<close>: the message; for a \<open>KeyError\<close> the quoted key.\<close>

fun exn_str :: "exn \<Rightarrow> pystr" where
  "exn_str (KeyError k) = quoted k"
| "exn_str (AttributeError m) = m"
| "exn_str (TypeError m) = m"
| "exn_str (RequestException m) = m"
| "exn_str (HTTPError m r) = m"
| "exn_str (JSONDecodeError m) = m"
| "exn_str (OSError m) = m"

text \<open>Sequencing of steps that may raise: the first exception ends the computation.\<close>

definition seq :: "exn + 'a \<Rightarrow> ('a \<Rightarrow> exn + 'b) \<Rightarrow> exn + 'b" where
  "seq m f = (case m of Inl e \<Rightarrow> Inl e | Inr x \<Rightarrow> f x)"

section \<open>Fork records\<close>

text \<open>
  The per-fork dictionary built by \<open>analyze_fork\<close>. A field is \<open>None\<close> when the key is
  absent from the dictionary (the error record has three keys only). \<open>description\<close> and
  \<open>error\<close> may hold Python's \<open>None\<close>: \<open>Some None\<close>. A key that is present holds a value
  of the type \<open>analyze_fork\<close> gives it from a well-typed answer of the API: an integer for
  the four counts, a string or a list of strings elsewhere. Python would let a dictionary
  hold any value under any key; such dictionaries are outside the model.
\<close>

record fork =
  owner :: "pystr option"
  url :: "pystr option"
  stars :: "int option"
  description :: "pystr option option"
  created_at :: "pystr option"
  updated_at :: "pystr option"
  custom_branches :: "pystr list option"
  branch_count :: "int option"
  ahead_by :: "int option"
  behind_by :: "int option"
  recent_commits :: "pystr list option"
  interesting :: "bool option"
  error :: "pystr option option"

text \<open>\<open>fork[k]\<close>: raises \<open>KeyError\<close> when the key is absent.\<close>

definition subscript :: "string \<Rightarrow> 'a option \<Rightarrow> exn + 'a" where
  "subscript k v = (case v of None \<Rightarrow> Inl (KeyError (u k)) | Some x \<Rightarrow> Inr x)"

text \<open>\<open>r.get('interesting', False)\<close>, \<open>r.get('stars', 0)\<close> and so on.\<close>

definition get_interesting :: "fork \<Rightarrow> bool" where
  "get_interesting r = (case interesting r of None \<Rightarrow> False | Some b \<Rightarrow> b)"

definition get_stars :: "fork \<Rightarrow> int" where
  "get_stars r = (case stars r of None \<Rightarrow> 0 | Some n \<Rightarrow> n)"

definition get_ahead_by :: "fork \<Rightarrow> int" where
  "get_ahead_by r = (case ahead_by r of None \<Rightarrow> 0 | Some n \<Rightarrow> n)"

definition get_branch_count :: "fork \<Rightarrow> int" where
  "get_branch_count r = (case branch_count r of None \<Rightarrow> 0 | Some n \<Rightarrow> n)"

section \<open>generate_report\<close>

text \<open>
  The sort key \<open>lambda x: (x.get('stars', 0), x.get('ahead_by', 0), x.get('branch_count', 0))\<close>;
  tuples compare lexicographically.
\<close>

definition rank_key :: "fork \<Rightarrow> int \<times> int \<times> int" where
  "rank_key x = (get_stars x, get_ahead_by x, get_branch_count x)"

text \<open>
  \<open>xs.sort(key=f, reverse=True)\<close>: CPython reverses the list, sorts it stably in
  ascending key order and reverses it again, so equal keys keep their input order.
\<close>

definition sort_reverse :: "('a \<Rightarrow> 'k::linorder) \<Rightarrow> 'a list \<Rightarrow> 'a list" where
  "sort_reverse f xs = rev (sort_key f (rev xs))"

definition summary_lines :: "nat \<Rightarrow> fork list \<Rightarrow> pystr list" where
  "summary_lines n_results interesting_list =
    [u ''## Summary'',
     u ''- Total forks analyzed: '' @ str_int (int n_results),
     u ''- Interesting forks: '' @ str_int (int (length interesting_list)),
     u ''- Forks with custom branches: ''
       @ str_int (int (length (filter (\<lambda>r. get_branch_count r > 0) interesting_list))),
     u ''- Forks ahead of upstream: ''
       @ str_int (int (length (filter (\<lambda>r. get_ahead_by r > 0) interesting_list))),
     u ''- Forked repos with stars: ''
       @ str_int (int (length (filter (\<lambda>r. get_stars r > 0) interesting_list))),
     []]"

text \<open>\<open>if fork.get('description'): ...\<close>: shown when present, not \<open>None\<close> and not empty.\<close>

definition description_lines :: "fork \<Rightarrow> pystr list" where
  "description_lines fork =
    (case description fork of
       Some (Some d) \<Rightarrow> if d \<noteq> [] then [u ''**Description:** '' @ d] else []
     | _ \<Rightarrow> [])"

text \<open>
  \<open>if fork.get('branch_count', 0) > 0\<close> guards \<open>fork['custom_branches']\<close>, a different
  key: the subscript can raise.
\<close>

definition branches_lines :: "fork \<Rightarrow> exn + pystr list" where
  "branches_lines fork =
    (if get_branch_count fork > 0
     then seq (subscript ''custom_branches'' (custom_branches fork))
            (\<lambda>bs. Inr [u ''**Custom Branches:** '' @ join (u '', '') bs])
     else Inr [])"

text \<open>
  \<open>if fork.get('ahead_by', 0) > 0: ... fork['ahead_by']\<close>: an absent key reads as 0 and
  skips the line, so the subscript is reached with the key present only.
\<close>

definition ahead_lines :: "fork \<Rightarrow> pystr list" where
  "ahead_lines fork =
    (case ahead_by fork of
       Some n \<Rightarrow> if n > 0 then [u ''**Ahead of upstream:** '' @ str_int n @ u '' commits''] else []
     | None \<Rightarrow> [])"

definition behind_lines :: "fork \<Rightarrow> pystr list" where
  "behind_lines fork =
    (case behind_by fork of
       Some n \<Rightarrow> if n > 0 then [u ''**Behind upstream:** '' @ str_int n @ u '' commits''] else []
     | None \<Rightarrow> [])"

definition sync_keywords :: "pystr list" where
  "sync_keywords = [u ''merge'', u ''upstream'', u ''sync'']"

text \<open>\<open>any(keyword in c.lower() for keyword in ['merge', 'upstream', 'sync'])\<close>\<close>

definition has_keyword :: "pystr \<Rightarrow> bool" where
  "has_keyword c = list_ex (\<lambda>keyword. sublist keyword (lower c)) sync_keywords"

definition unique_commits :: "pystr list \<Rightarrow> pystr list" where
  "unique_commits cs = filter (\<lambda>c. \<not> has_keyword c) cs"

definition commit_lines :: "fork \<Rightarrow> pystr list" where
  "commit_lines fork =
    (case recent_commits fork of
       None \<Rightarrow> []
     | Some cs \<Rightarrow>
         if cs = [] then []
         else if unique_commits cs = [] then []
         else u ''**Recent Unique Commits:**''
              # map (\<lambda>commit. u ''  - '' @ take 80 commit) (take 3 (unique_commits cs)))"

definition worth_investigating :: "fork \<Rightarrow> bool" where
  "worth_investigating fork =
    (get_stars fork \<ge> 5 \<or> get_ahead_by fork \<ge> 5 \<or> get_branch_count fork \<ge> 2)"

text \<open>The warning sign U+26A0 with its variation selector U+FE0F.\<close>

definition worth_lines :: "fork \<Rightarrow> pystr list" where
  "worth_lines fork =
    (if worth_investigating fork
     then [u ''**'' @ [0x26A0, 0xFE0F] @ u '' WORTH INVESTIGATING**'']
     else [])"

text \<open>One iteration of the loop over \<open>enumerate(interesting[:20], 1)\<close>.\<close>

definition fork_detail :: "nat \<Rightarrow> fork \<Rightarrow> exn + pystr list" where
  "fork_detail i fork =
    seq (subscript ''owner'' (owner fork)) (\<lambda>ow.
    seq (subscript ''url'' (url fork)) (\<lambda>ur.
    seq (branches_lines fork) (\<lambda>bl.
      Inr ([u ''### '' @ str_int (int i) @ u ''. '' @ ow,
            u ''**URL:** '' @ ur,
            u ''**Stars:** '' @ str_int (get_stars fork)]
           @ description_lines fork @ bl @ ahead_lines fork @ behind_lines fork
           @ commit_lines fork @ worth_lines fork @ [[]]))))"

fun detail_loop :: "nat \<Rightarrow> fork list \<Rightarrow> exn + pystr list" where
  "detail_loop i [] = Inr []"
| "detail_loop i (fork # rest) =
    seq (fork_detail i fork) (\<lambda>ls. seq (detail_loop (Suc i) rest) (\<lambda>more. Inr (ls @ more)))"

definition detail_block :: "fork list \<Rightarrow> exn + pystr list" where
  "detail_block interesting_list =
    (if interesting_list \<noteq> []
     then seq (detail_loop 1 (take 20 interesting_list))
            (\<lambda>ls. Inr ([u ''## Most Interesting Forks'', []] @ ls))
     else Inr [])"

definition reasons :: "fork \<Rightarrow> pystr list" where
  "reasons fork =
    (case stars fork of Some n \<Rightarrow> if n > 0 then [str_int n @ u '' stars''] else [] | None \<Rightarrow> [])
    @ (case ahead_by fork of
         Some n \<Rightarrow> if n > 0 then [str_int n @ u '' commits ahead''] else [] | None \<Rightarrow> [])
    @ (case branch_count fork of
         Some n \<Rightarrow> if n > 0 then [str_int n @ u '' custom branches''] else [] | None \<Rightarrow> [])"

definition reason_str :: "fork \<Rightarrow> pystr" where
  "reason_str fork = (if reasons fork \<noteq> [] then join (u '', '') (reasons fork) else u ''Active fork'')"

definition recommendation :: "nat \<Rightarrow> fork \<Rightarrow> exn + pystr list" where
  "recommendation i fork =
    seq (subscript ''owner'' (owner fork)) (\<lambda>ow.
    seq (subscript ''url'' (url fork)) (\<lambda>ur.
      Inr [str_int (int i) @ u ''. **'' @ ow @ u ''** - '' @ reason_str fork,
           u ''   '' @ ur]))"

fun recommendation_loop :: "nat \<Rightarrow> fork list \<Rightarrow> exn + pystr list" where
  "recommendation_loop i [] = Inr []"
| "recommendation_loop i (fork # rest) =
    seq (recommendation i fork)
      (\<lambda>ls. seq (recommendation_loop (Suc i) rest) (\<lambda>more. Inr (ls @ more)))"

definition recommendations_block :: "fork list \<Rightarrow> exn + pystr list" where
  "recommendations_block interesting_list =
    (let top_forks = take 5 interesting_list in
     if top_forks \<noteq> []
     then seq (recommendation_loop 1 top_forks)
            (\<lambda>ls. Inr (u ''### Top 5 Forks to Review:'' # ls))
     else Inr [])"

text \<open>
  The list \<open>report\<close> at the \<open>return\<close>, from the timestamp text
  \<open>datetime.now().strftime('%Y-%m-%d %H:%M:%S')\<close>, \<open>len(results)\<close> and the list
  \<open>interesting\<close> after the sort.
\<close>

definition render :: "pystr \<Rightarrow> nat \<Rightarrow> fork list \<Rightarrow> exn + pystr list" where
  "render now n_results interesting_list =
    seq (detail_block interesting_list) (\<lambda>detail.
    seq (recommendations_block interesting_list) (\<lambda>recs.
      Inr ([u ''# 1code Fork Analysis Report'', u ''Generated: '' @ now, []]
           @ summary_lines n_results interesting_list
           @ detail
           @ [u ''## Recommendations'', []]
           @ recs)))"

definition interesting_sorted :: "fork list \<Rightarrow> fork list" where
  "interesting_sorted results = sort_reverse rank_key (filter get_interesting results)"

definition report_lines :: "pystr \<Rightarrow> fork list \<Rightarrow> exn + pystr list" where
  "report_lines now results = render now (length results) (interesting_sorted results)"

definition generate_report :: "pystr \<Rightarrow> fork list \<Rightarrow> exn + pystr" where
  "generate_report now results = seq (report_lines now results) (\<lambda>report. Inr (join [10] report))"

section \<open>generate_report on a store\<close>

text \<open>
  Python lists and dictionaries are objects reached by reference. The store keeps list
  objects (their items are references to dictionaries) and dictionary objects apart;
  list addresses below \<open>used\<close> are taken.
\<close>

record store =
  lists :: "nat \<Rightarrow> nat list"
  dicts :: "nat \<Rightarrow> fork"
  used :: nat

text \<open>
  \<open>generate_report(results)\<close> with \<open>results\<close> the address of a list object. The list
  comprehension builds a new list object \<open>interesting_list\<close>; \<open>sort\<close> overwrites that object
  in place; everything after reads the store. The lists \<open>report\<close>, \<open>reasons\<close> and the
  slices are not kept in the store: they are built and read in this call only.
\<close>

definition generate_report_st :: "pystr \<Rightarrow> nat \<Rightarrow> store \<Rightarrow> (exn + pystr) \<times> store" where
  "generate_report_st now results s =
    (let interesting_list = used s;
         s1 = s\<lparr>lists := (lists s)(interesting_list :=
                   filter (\<lambda>r. get_interesting (dicts s r)) (lists s results)),
                 used := Suc (used s)\<rparr>;
         s2 = s1\<lparr>lists := (lists s1)(interesting_list :=
                   sort_reverse (\<lambda>x. rank_key (dicts s1 x)) (lists s1 interesting_list))\<rparr>
     in (seq (render now (length (lists s2 results))
                (map (dicts s2) (lists s2 interesting_list)))
           (\<lambda>report. Inr (join [10] report)),
         s2))"

section \<open>The world outside\<close>

text \<open>
  What the program does to its environment, in order: HTTP GET requests, console output
  (the text written, newline included), sleeps (in milliseconds) and the report file.
\<close>

datatype event = Get pystr | Print pystr | Sleep nat | WriteFile pystr pystr

text \<open>\<open>requests.get\<close> raises (no connection, a timeout) or returns a response.\<close>

datatype http_result = Fails exn | Responds response

text \<open>
  \<open>net w n url\<close> is what the network answers to the \<open>n\<close>-th request of the run when it
  asks for \<open>url\<close>; \<open>now_text\<close> is what \<open>datetime.now().strftime('%Y-%m-%d %H:%M:%S')\<close>
  gives when the report is generated; \<open>open_error\<close> is the message of the \<open>OSError\<close> that
  opening the report file raises, if it does.
\<close>

record world =
  net :: "nat \<Rightarrow> pystr \<Rightarrow> http_result"
  issued :: nat
  trace :: "event list"
  now_text :: pystr
  open_error :: "pystr option"

definition emit :: "event \<Rightarrow> world \<Rightarrow> world" where
  "emit ev w = w\<lparr>trace := trace w @ [ev]\<rparr>"

text \<open>\<open>print(s)\<close> writes \<open>s\<close> and a newline; \<open>print(s, end='')\<close> writes \<open>s\<close>.\<close>

definition print :: "pystr \<Rightarrow> world \<Rightarrow> world" where
  "print s w = emit (Print (s @ [10])) w"

definition print_no_newline :: "pystr \<Rightarrow> world \<Rightarrow> world" where
  "print_no_newline s w = emit (Print s) w"

definition sleep :: "nat \<Rightarrow> world \<Rightarrow> world" where
  "sleep ms w = emit (Sleep ms) w"

text \<open>\<open>requests.get(url, headers=headers)\<close>; the two headers are the same in every request.\<close>

definition requests_get :: "pystr \<Rightarrow> world \<Rightarrow> http_result \<times> world" where
  "requests_get target w =
    (net w (issued w) target, emit (Get target) (w\<lparr>issued := Suc (issued w)\<rparr>))"

section \<open>fetch_github_api\<close>

text \<open>
  \<open>response.raise_for_status()\<close> of the requests library: an \<open>HTTPError\<close> that carries the
  response for a status from 400 to 599, nothing otherwise.
\<close>

definition raise_for_status :: "response \<Rightarrow> exn + unit" where
  "raise_for_status r =
    (if 400 \<le> status_code r \<and> status_code r < 500
     then Inl (HTTPError (str_int (status_code r) @ u '' Client Error: '' @ reason r
                          @ u '' for url: '' @ resp_url r) r)
     else if 500 \<le> status_code r \<and> status_code r < 600
     then Inl (HTTPError (str_int (status_code r) @ u '' Server Error: '' @ reason r
                          @ u '' for url: '' @ resp_url r) r)
     else Inr ())"

definition response_json :: "response \<Rightarrow> exn + body" where
  "response_json r = (case json r of Inl m \<Rightarrow> Inl (JSONDecodeError m) | Inr b \<Rightarrow> Inr b)"

definition fetch_github_api :: "pystr \<Rightarrow> world \<Rightarrow> (exn + body) \<times> world" where
  "fetch_github_api target w =
    (case requests_get target w of
       (Fails e, w1) \<Rightarrow> (Inl e, w1)
     | (Responds r, w1) \<Rightarrow>
         if status_code r = 403
         then (case requests_get target
                      (sleep 60000 (print (u ''Rate limited! Waiting 60 seconds...'') w1)) of
                 (Fails e, w2) \<Rightarrow> (Inl e, w2)
               | (Responds r2, w2) \<Rightarrow>
                   (seq (raise_for_status r2) (\<lambda>_. response_json r2), w2))
         else (seq (raise_for_status r) (\<lambda>_. response_json r), w1))"

section \<open>analyze_fork\<close>

text \<open>The keys of a JSON object, as iterating over the dictionary gives them.\<close>

definition obj_keys :: "json_obj \<Rightarrow> pystr list" where
  "obj_keys ob =
    (if stargazers_count ob = None then [] else [u ''stargazers_count''])
    @ (if j_description ob = None then [] else [u ''description''])
    @ (if j_created_at ob = None then [] else [u ''created_at''])
    @ (if j_updated_at ob = None then [] else [u ''updated_at''])
    @ (if name ob = None then [] else [u ''name''])
    @ (if commit ob = None then [] else [u ''commit''])
    @ (if j_ahead_by ob = None then [] else [u ''ahead_by''])
    @ (if j_behind_by ob = None then [] else [u ''behind_by''])
    @ other_keys ob"

text \<open>\<open>data.get(...)\<close> on a parsed body: a list has no attribute \<open>get\<close>.\<close>

definition as_dict :: "body \<Rightarrow> exn + json_obj" where
  "as_dict b =
    (case b of
       Obj ob \<Rightarrow> Inr ob
     | Arr _ \<Rightarrow> Inl (AttributeError (quoted (u ''list'') @ u '' object has no attribute ''
                                     @ quoted (u ''get''))))"

text \<open>
  \<open>for x in data\<close> followed by \<open>x['...']\<close>: the items of an array are objects; iterating over
  an object gives its keys, which are strings, and a string subscripted by a string raises
  \<open>TypeError\<close> at the first item.
\<close>

definition items_of :: "body \<Rightarrow> exn + json_obj list" where
  "items_of b =
    (case b of
       Arr xs \<Rightarrow> Inr xs
     | Obj ob \<Rightarrow>
         if obj_keys ob = [] then Inr []
         else Inl (TypeError (u ''string indices must be integers, not '' @ quoted (u ''str''))))"

definition repo_url :: "pystr \<Rightarrow> pystr" where
  "repo_url owner_name = u ''https://api.github.com/repos/'' @ owner_name @ u ''/1code''"

definition branches_url :: "pystr \<Rightarrow> pystr" where
  "branches_url owner_name =
    u ''https://api.github.com/repos/'' @ owner_name @ u ''/1code/branches?per_page=100''"

definition commits_url :: "pystr \<Rightarrow> pystr" where
  "commits_url owner_name =
    u ''https://api.github.com/repos/'' @ owner_name @ u ''/1code/commits?per_page=10''"

definition compare_url :: "pystr \<Rightarrow> pystr" where
  "compare_url owner_name =
    u ''https://api.github.com/repos/'' @ owner_name @ u ''/1code/compare/21st-dev:main...''
    @ owner_name @ u '':main''"

text \<open>The dictionary literal \<open>result = {...}\<close>, from the owner and the repository object.\<close>

definition new_result :: "pystr \<Rightarrow> json_obj \<Rightarrow> fork" where
  "new_result owner_name repo_data =
    \<lparr>owner = Some owner_name,
     url = Some (u ''https://github.com/'' @ owner_name @ u ''/1code''),
     stars = Some (case stargazers_count repo_data of None \<Rightarrow> 0 | Some n \<Rightarrow> n),
     description = Some (case j_description repo_data of None \<Rightarrow> Some [] | Some d \<Rightarrow> d),
     created_at = Some (case j_created_at repo_data of None \<Rightarrow> [] | Some t \<Rightarrow> t),
     updated_at = Some (case j_updated_at repo_data of None \<Rightarrow> [] | Some t \<Rightarrow> t),
     custom_branches = Some [],
     branch_count = Some 0,
     ahead_by = Some 0,
     behind_by = Some 0,
     recent_commits = Some [],
     interesting = Some False,
     error = Some None\<rparr>"

text \<open>The dictionary returned by the outer \<open>except\<close>: three keys.\<close>

definition error_record :: "pystr \<Rightarrow> pystr \<Rightarrow> fork" where
  "error_record owner_name msg =
    \<lparr>owner = Some owner_name,
     url = None,
     stars = None,
     description = None,
     created_at = None,
     updated_at = None,
     custom_branches = None,
     branch_count = None,
     ahead_by = None,
     behind_by = None,
     recent_commits = None,
     interesting = Some False,
     error = Some (Some msg)\<rparr>"

text \<open>\<open>[b['name'] for b in branches_data if b['name'] not in ['main', 'master']]\<close>\<close>

fun branch_names :: "json_obj list \<Rightarrow> exn + pystr list" where
  "branch_names [] = Inr []"
| "branch_names (b # bs) =
    seq (subscript ''name'' (name b)) (\<lambda>n.
    seq (branch_names bs) (\<lambda>ns.
      Inr (if n \<notin> set [u ''main'', u ''master''] then n # ns else ns)))"

text \<open>\<open>[commit['commit']['message'].split('\n')[0] for commit in commits_data]\<close>\<close>

fun commit_first_lines :: "json_obj list \<Rightarrow> exn + pystr list" where
  "commit_first_lines [] = Inr []"
| "commit_first_lines (c # cs) =
    seq (subscript ''commit'' (commit c)) (\<lambda>inner.
    seq (subscript ''message'' (message inner)) (\<lambda>m.
    seq (commit_first_lines cs) (\<lambda>ls.
      Inr (first_line m # ls))))"

text \<open>The first inner \<open>try\<close>: branches.\<close>

definition branches_step :: "pystr \<Rightarrow> fork \<Rightarrow> world \<Rightarrow> fork \<times> world" where
  "branches_step owner_name result w =
    (case fetch_github_api (branches_url owner_name) w of
       (fetched, w1) \<Rightarrow>
         (case seq fetched (\<lambda>branches_data. seq (items_of branches_data) branch_names) of
            Inr names \<Rightarrow>
              (result\<lparr>custom_branches := Some names, branch_count := Some (int (length names))\<rparr>,
               w1)
          | Inl e \<Rightarrow> (result, print (u ''Error fetching branches: '' @ exn_str e) w1)))"

text \<open>The second inner \<open>try\<close>: recent commits.\<close>

definition commits_step :: "pystr \<Rightarrow> fork \<Rightarrow> world \<Rightarrow> fork \<times> world" where
  "commits_step owner_name result w =
    (case fetch_github_api (commits_url owner_name) w of
       (fetched, w1) \<Rightarrow>
         (case seq fetched (\<lambda>commits_data. seq (items_of commits_data) commit_first_lines) of
            Inr first_lines \<Rightarrow> (result\<lparr>recent_commits := Some first_lines\<rparr>, w1)
          | Inl e \<Rightarrow> (result, print (u ''Error fetching commits: '' @ exn_str e) w1)))"

text \<open>The third inner \<open>try\<close>: comparison with upstream; its \<open>except\<close> is silent.\<close>

definition comparison_step :: "pystr \<Rightarrow> fork \<Rightarrow> world \<Rightarrow> fork \<times> world" where
  "comparison_step owner_name result w =
    (case fetch_github_api (compare_url owner_name) w of
       (fetched, w1) \<Rightarrow>
         (case seq fetched as_dict of
            Inr comparison_data \<Rightarrow>
              (result\<lparr>ahead_by :=
                        Some (case j_ahead_by comparison_data of None \<Rightarrow> 0 | Some n \<Rightarrow> n),
                      behind_by :=
                        Some (case j_behind_by comparison_data of None \<Rightarrow> 0 | Some n \<Rightarrow> n)\<rparr>,
               w1)
          | Inl e \<Rightarrow> (result, w1)))"

text \<open>
  \<open>result['interesting'] = (result['branch_count'] > 0 or result['ahead_by'] > 0 or
  result['stars'] > 0)\<close>. The three keys are in \<open>result\<close> since the dictionary literal, so
  each subscript reads the value that \<open>get\<close> reads.
\<close>

definition set_interesting :: "fork \<Rightarrow> fork" where
  "set_interesting result =
    result\<lparr>interesting :=
      Some (get_branch_count result > 0 \<or> get_ahead_by result > 0 \<or> get_stars result > 0)\<rparr>"

text \<open>The outer \<open>except\<close>; the cross is U+2717.\<close>

definition analysis_failed :: "pystr \<Rightarrow> exn \<Rightarrow> world \<Rightarrow> fork \<times> world" where
  "analysis_failed owner_name e w =
    (error_record owner_name (exn_str e),
     print (u '' '' @ [0x2717] @ u '' ('' @ exn_str e @ u '')'') w)"

text \<open>The check mark is U+2713.\<close>

definition analyze_fork :: "pystr \<Rightarrow> world \<Rightarrow> fork \<times> world" where
  "analyze_fork owner_name w =
    (case fetch_github_api (repo_url owner_name)
            (print_no_newline (u ''Analyzing '' @ owner_name @ u ''...'') w) of
       (fetched, w1) \<Rightarrow>
         (case seq fetched as_dict of
            Inl e \<Rightarrow> analysis_failed owner_name e w1
          | Inr repo_data \<Rightarrow>
              (case branches_step owner_name (new_result owner_name repo_data) w1 of
                 (result1, w2) \<Rightarrow>
              (case commits_step owner_name result1 w2 of
                 (result2, w3) \<Rightarrow>
              (case comparison_step owner_name result2 w3 of
                 (result3, w4) \<Rightarrow>
                   (set_interesting result3, sleep 500 (print (u '' '' @ [0x2713]) w4)))))))"

section \<open>main\<close>

definition FORK_OWNERS :: "pystr list" where
  "FORK_OWNERS = map u
    [''MorpheusEMH'', ''pichimail'', ''amal-irgashev'', ''adilsarfraz02'', ''CCwithAi'',
      ''xjayk'', ''sdamarketing'', ''dodabuilt'', ''threatseeker'', ''maxcp-dd'',
      ''tahoery'', ''BruceICzw'', ''zxx2112'', ''Simpl3Jack'', ''Illgot'', ''ahao0150'',
      ''ktisakib'', ''uvtechnologyins'', ''148K'', ''jagannathsunani66-svg'',
      ''omarfattah44'', ''keysemails'', ''ramarivera'', ''Connorbelez'', ''badibadey'',
      ''nainishshafi'', ''ak56434189-sketch'', ''azpublic'', ''yarstann'', ''yeasin2002'',
      ''xxw-xp'', ''okisdev'', ''fixcode-h'', ''aiob3'', ''a3my'', ''TbusOS'',
      ''narvinIR'', ''aakash4dev'', ''0x-m1cro'', ''zhenbah'', ''nilskroe'',
      ''anhdd-kuro'', ''appdirectory'', ''Godzizizilla'', ''mariomile'', ''berkipekoglu'',
      ''hvnvibz'', ''mows333'', ''rawhit-r'', ''tylergraydev'', ''w159'', ''royashoya'',
      ''premanand8800'', ''maxthraxx'', ''GoraAI'', ''JoziGila'', ''sandriaas'',
      ''crazyboyonline'', ''felix-zoe'', ''reham00025'', ''078sky'', ''heshangcode'',
      ''okgoodok123'', ''ChrisPei'', ''CodeHourra'', ''kazhuyo'', ''cleardry'',
      ''prathamdby'', ''CorentinLumineau'', ''krmao'', ''ronkaldes'', ''pete1313'',
      ''wushanru'', ''Abouzeid'', ''MaTriXy'', ''AbdullahTerro'', ''phoxiao'', ''ca-x'',
      ''Wikiup'', ''mibotech-ai'', ''hongshancapital'', ''TheMorganAlistair'', ''seanly'',
      ''mjbin888'', ''Stoplossking1'', ''ahmedaarab103'', ''Ahmedalsadi-1'',
      ''codemeasandwich'', ''ishimwekevinfounder'', ''Frank-III'', ''chujianyun'',
      ''newstart0514'', ''hadimousavi79'', ''RandomSynergy17'', ''wiobip'',
      ''kaallliiii6'', ''a25varshney'', ''fuzz2410'', ''katrinavassell'', ''gitjfmd'']"

text \<open>\<open>for owner in FORK_OWNERS: results.append(analyze_fork(owner))\<close>\<close>

fun analyze_loop :: "pystr list \<Rightarrow> fork list \<Rightarrow> world \<Rightarrow> fork list \<times> world" where
  "analyze_loop [] results w = (results, w)"
| "analyze_loop (owner_name # rest) results w =
    (case analyze_fork owner_name w of
       (result, w1) \<Rightarrow> analyze_loop rest (results @ [result]) w1)"

definition report_file :: pystr where
  "report_file = u ''M:/claude_tools/1code/FORK_ANALYSIS_REPORT.md''"

text \<open>
  \<open>with open(report_file, 'w') as f: f.write(report)\<close>; the file, once open, is taken to
  accept the whole text.
\<close>

definition write_report :: "pystr \<Rightarrow> world \<Rightarrow> (exn + unit) \<times> world" where
  "write_report report w =
    (case open_error w of
       Some msg \<Rightarrow> (Inl (OSError msg), w)
     | None \<Rightarrow> (Inr (), emit (WriteFile report_file report) w))"

text \<open>
  What one iteration of the console loop prints: the fork's line, then the star (U+2B50),
  herb (U+1F33F) and up-arrow (U+2B06 U+FE0F) lines whose count is above 0. The two
  subscripts are evaluated before the first \<open>print\<close>.
\<close>

definition fork_summary :: "nat \<Rightarrow> fork \<Rightarrow> exn + pystr list" where
  "fork_summary i fork =
    seq (subscript ''owner'' (owner fork)) (\<lambda>ow.
    seq (subscript ''url'' (url fork)) (\<lambda>ur.
      Inr ([str_int (int i) @ u ''. '' @ ow @ u '' ('' @ ur @ u '')'']
           @ (case stars fork of
                Some n \<Rightarrow> if n > 0 then [u ''   '' @ [0x2B50] @ u '' '' @ str_int n @ u '' stars'']
                          else []
              | None \<Rightarrow> [])
           @ (case branch_count fork of
                Some n \<Rightarrow> if n > 0
                          then [u ''   '' @ [0x1F33F] @ u '' '' @ str_int n @ u '' custom branches'']
                          else []
              | None \<Rightarrow> [])
           @ (case ahead_by fork of
                Some n \<Rightarrow> if n > 0
                          then [u ''   '' @ [0x2B06, 0xFE0F] @ u '' '' @ str_int n
                                @ u '' commits ahead'']
                          else []
              | None \<Rightarrow> []))))"

fun summary_loop :: "nat \<Rightarrow> fork list \<Rightarrow> world \<Rightarrow> (exn + unit) \<times> world" where
  "summary_loop i [] w = (Inr (), w)"
| "summary_loop i (fork # rest) w =
    (case fork_summary i fork of
       Inl e \<Rightarrow> (Inl e, w)
     | Inr ls \<Rightarrow> summary_loop (Suc i) rest (fold print ls w))"

text \<open>The console summary at the end of \<open>main\<close>; \<open>interesting_list\<close> is built again, unsorted.\<close>

definition print_summary :: "fork list \<Rightarrow> world \<Rightarrow> (exn + unit) \<times> world" where
  "print_summary results w =
    (let interesting_list = filter get_interesting results;
         w1 = print ([0x2713] @ u '' Found '' @ str_int (int (length interesting_list))
                     @ u '' interesting forks out of '' @ str_int (int (length results))
                     @ u '' total'') w
     in if interesting_list \<noteq> []
        then summary_loop 1 (take 5 interesting_list)
               (print ([10] @ u ''Top 5 Most Interesting:'') w1)
        else (Inr (), w1))"

text \<open>\<open>main\<close> for a list of owners; an exception that leaves it ends the program.\<close>

definition main_with :: "pystr list \<Rightarrow> world \<Rightarrow> (exn + unit) \<times> world" where
  "main_with owners w =
    (case analyze_loop owners []
            (print []
              (print (u ''Analyzing '' @ str_int (int (length owners)) @ u '' forks...'')
                (print (replicate 60 61)
                  (print (u ''1code Fork Analysis'')
                    (print (replicate 60 61) w))))) of
       (results, w1) \<Rightarrow>
         (let w2 = print (u ''Generating report...'') (print [] w1) in
          case generate_report (now_text w2) results of
            Inl e \<Rightarrow> (Inl e, w2)
          | Inr report \<Rightarrow>
              (case write_report report w2 of
                 (Inl e, w3) \<Rightarrow> (Inl e, w3)
               | (Inr _, w3) \<Rightarrow>
                   print_summary results
                     (print [] (print (u ''Report saved to: '' @ report_file) w3)))))"

definition main :: "world \<Rightarrow> (exn + unit) \<times> world" where
  "main w = main_with FORK_OWNERS w"


section \<open>Well-formed records and sample inputs\<close>

text \<open>The two shapes of dictionary that \<open>analyze_fork\<close> returns: every key, or the three of
  the error record.\<close>

definition all_keys :: "fork \<Rightarrow> bool" where
  "all_keys r =
    (owner r \<noteq> None \<and> url r \<noteq> None \<and> stars r \<noteq> None \<and> description r \<noteq> None
     \<and> created_at r \<noteq> None \<and> updated_at r \<noteq> None \<and> custom_branches r \<noteq> None
     \<and> branch_count r \<noteq> None \<and> ahead_by r \<noteq> None \<and> behind_by r \<noteq> None
     \<and> recent_commits r \<noteq> None \<and> interesting r \<noteq> None \<and> error r \<noteq> None)"

definition error_shape :: "fork \<Rightarrow> bool" where
  "error_shape r =
    (owner r \<noteq> None \<and> url r = None \<and> stars r = None \<and> description r = None
     \<and> created_at r = None \<and> updated_at r = None \<and> custom_branches r = None
     \<and> branch_count r = None \<and> ahead_by r = None \<and> behind_by r = None
     \<and> recent_commits r = None \<and> interesting r = Some False
     \<and> (case error r of Some (Some msg) \<Rightarrow> True | _ \<Rightarrow> False))"

definition fork_record :: "fork \<Rightarrow> bool" where
  "fork_record r = (all_keys r \<or> error_shape r)"

text \<open>A repository object that has a star count and no other key.\<close>

definition bare_repo :: "int \<Rightarrow> json_obj" where
  "bare_repo n =
    \<lparr>stargazers_count = Some n, j_description = None, j_created_at = None,
     j_updated_at = None, name = None, commit = None, j_ahead_by = None,
     j_behind_by = None, other_keys = []\<rparr>"

text \<open>The record of an owner with that repository object whose three other fetches failed.\<close>

definition starred_fork :: "string \<Rightarrow> int \<Rightarrow> fork" where
  "starred_fork n k = set_interesting (new_result (u n) (bare_repo k))"

text \<open>A store with one list, at address 0, of two dictionaries.\<close>

definition two_stores :: store where
  "two_stores =
    \<lparr>lists = (\<lambda>a. if a = 0 then [0, 1] else []),
     dicts = (\<lambda>p. if p = 0 then starred_fork ''a'' 1 else starred_fork ''b'' 2),
     used = 1\<rparr>"

text \<open>A record with four recent commits; the last has 100 characters.\<close>

definition busy_fork :: fork where
  "busy_fork =
    (starred_fork ''a'' 1)
      \<lparr>recent_commits :=
         Some [u ''Merge branch main'', u ''Add dark mode'', u ''SYNC with UPSTREAM'',
               replicate 100 97]\<rparr>"

text \<open>Six records with one star each, and two records in ascending order of stars.\<close>

definition six_forks :: "fork list" where
  "six_forks = map (\<lambda>n. starred_fork n 1) [''a'', ''b'', ''c'', ''d'', ''e'', ''f'']"

definition two_forks :: "fork list" where
  "two_forks = [starred_fork ''a'' 1, starred_fork ''b'' 2]"


text \<open>Sample responses and networks: one that answers 403 and then 200, one that answers
  503, and one that serves a table of URLs with status 200 and answers 404 to every other
  request.\<close>

definition reply :: "int \<Rightarrow> pystr \<Rightarrow> pystr \<Rightarrow> pystr + body \<Rightarrow> response" where
  "reply code why target j =
    \<lparr>status_code = code, reason = why, resp_url = target, body_text = [], json = j\<rparr>"

definition flaky_world :: world where
  "flaky_world =
    \<lparr>net = (\<lambda>n target.
        if n = 0 then Responds (reply 403 (u ''Forbidden'') target (Inl (u ''Expecting value'')))
        else Responds (reply 200 (u ''OK'') target (Inr (Obj (bare_repo 3))))),
     issued = 0, trace = [], now_text = [], open_error = None\<rparr>"

definition down_world :: world where
  "down_world =
    \<lparr>net = (\<lambda>n target.
        Responds (reply 503 (u ''Service Unavailable'') target (Inl (u ''Expecting value'')))),
     issued = 0, trace = [], now_text = [], open_error = None\<rparr>"

definition no_keys :: json_obj where
  "no_keys =
    \<lparr>stargazers_count = None, j_description = None, j_created_at = None,
     j_updated_at = None, name = None, commit = None, j_ahead_by = None,
     j_behind_by = None, other_keys = []\<rparr>"

definition commit_item :: "pystr \<Rightarrow> json_obj" where
  "commit_item m = no_keys\<lparr>commit := Some \<lparr>message = Some m\<rparr>\<rparr>"

definition serving :: "(pystr \<times> body) list \<Rightarrow> world" where
  "serving table =
    \<lparr>net = (\<lambda>k target.
        case map_of table target of
          Some b \<Rightarrow> Responds (reply 200 (u ''OK'') target (Inr b))
        | None \<Rightarrow> Responds (reply 404 (u ''Not Found'') target
                     (Inr (Obj (no_keys\<lparr>other_keys := [u ''message'']\<rparr>))))),
     issued = 0, trace = [], now_text = u ''2026-01-01 00:00:00'', open_error = None\<rparr>"

definition commits_world :: world where
  "commits_world =
    serving [(repo_url (u ''a''), Obj (bare_repo 0)),
             (commits_url (u ''a''),
              Arr [commit_item (u ''Fix bug'' @ [10] @ u ''and more''),
                   commit_item (u ''Merge main'')])]"


text \<open>A network where the first owner of the list has one star, the second has two, and
  every other request is answered 404.\<close>

definition stars_world :: world where
  "stars_world =
    serving [(repo_url (u ''MorpheusEMH''), Obj (bare_repo 1)),
             (repo_url (u ''pichimail''), Obj (bare_repo 2))]"

text \<open>A network that answers the commits request of owner \<open>a\<close> with eleven commits.\<close>

definition eleven_world :: world where
  "eleven_world =
    serving [(repo_url (u ''a''), Obj (bare_repo 0)),
             (commits_url (u ''a''), Arr (replicate 11 (commit_item (u ''wip''))))]"

section \<open>Basic facts\<close>

declare digits.simps [simp del]

lemma seq_Inr [simp]: "seq (Inr x) f = f x"
  by (simp add: seq_def)

lemma seq_Inl [simp]: "seq (Inl e) f = Inl e"
  by (simp add: seq_def)

lemma seq_eq_Inr: "seq m f = Inr y \<longleftrightarrow> (\<exists>x. m = Inr x \<and> f x = Inr y)"
  by (cases m) simp_all

lemma subscript_Some [simp]: "subscript k (Some x) = Inr x"
  by (simp add: subscript_def)

lemma u_Nil [simp]: "u [] = []"
  by (simp add: u_def)

lemma u_Cons [simp]: "u (c # s) = of_char c # u s"
  by (simp add: u_def)

lemma join_header:
  "join [10] (t # g # [] # rest) = t @ [10] @ g @ [10] @ join [10] ([] # rest)"
  by simp

subsection \<open>The descending stable sort\<close>

lemma mset_sort_reverse [simp]: "mset (sort_reverse f xs) = mset xs"
  by (simp add: sort_reverse_def)

lemma set_sort_reverse [simp]: "set (sort_reverse f xs) = set xs"
  by (simp add: sort_reverse_def)

lemma length_sort_reverse [simp]: "length (sort_reverse f xs) = length xs"
  by (simp add: sort_reverse_def)

lemma sort_reverse_Nil_iff [simp]: "sort_reverse f xs = [] \<longleftrightarrow> xs = []"
  by (metis length_0_conv length_sort_reverse)

lemma sorted_sort_reverse: "sorted (rev (map f (sort_reverse f xs)))"
  by (simp add: sort_reverse_def rev_map)

lemma sort_reverse_nth_mono:
  assumes "i \<le> j" and "j < length xs"
  shows "f (sort_reverse f xs ! j) \<le> f (sort_reverse f xs ! i)"
proof -
  have "map f (sort_reverse f xs) ! j \<le> map f (sort_reverse f xs) ! i"
    using sorted_sort_reverse [of f xs] assms by (intro sorted_rev_nth_mono) simp_all
  with assms show ?thesis by simp
qed

lemma sort_reverse_stable:
  "filter (\<lambda>y. f y = k) (sort_reverse f xs) = filter (\<lambda>y. f y = k) xs"
  by (simp add: sort_reverse_def sort_key_stable flip: rev_filter)

lemma insort_key_map:
  "insort_key f (g x) (map g xs) = map g (insort_key (\<lambda>a. f (g a)) x xs)"
  by (induction xs) simp_all

lemma sort_key_map: "sort_key f (map g xs) = map g (sort_key (\<lambda>a. f (g a)) xs)"
  by (induction xs) (simp_all add: insort_key_map)

lemma sort_reverse_map:
  "sort_reverse f (map g xs) = map g (sort_reverse (\<lambda>a. f (g a)) xs)"
  by (simp add: sort_reverse_def sort_key_map rev_map)

subsection \<open>The report\<close>

lemma render_cases:
  "render now n L = Inr report \<longleftrightarrow>
    (\<exists>detail recs. detail_block L = Inr detail \<and> recommendations_block L = Inr recs
       \<and> report = [u ''# 1code Fork Analysis Report'', u ''Generated: '' @ now, []]
           @ summary_lines n L @ detail @ [u ''## Recommendations'', []] @ recs)"
  by (auto simp: render_def seq_eq_Inr)

lemma fork_detail_ok:
  assumes "all_keys f"
  shows "\<exists>ls. fork_detail i f = Inr ls"
  using assms by (auto simp: all_keys_def fork_detail_def branches_lines_def)

lemma detail_loop_ok:
  "list_all all_keys fs \<Longrightarrow> \<exists>ls. detail_loop i fs = Inr ls"
proof (induction fs arbitrary: i)
  case Nil
  then show ?case by simp
next
  case (Cons f fs)
  from Cons.prems obtain ls where "fork_detail i f = Inr ls"
    using fork_detail_ok by auto
  moreover from Cons obtain more where "detail_loop (Suc i) fs = Inr more"
    by auto
  ultimately show ?case by simp
qed

lemma recommendation_ok:
  assumes "all_keys f"
  shows "\<exists>ls. recommendation i f = Inr ls"
  using assms by (auto simp: all_keys_def recommendation_def)

lemma recommendation_loop_ok:
  "list_all all_keys fs \<Longrightarrow> \<exists>ls. recommendation_loop i fs = Inr ls"
proof (induction fs arbitrary: i)
  case Nil
  then show ?case by simp
next
  case (Cons f fs)
  from Cons.prems obtain ls where "recommendation i f = Inr ls"
    using recommendation_ok by auto
  moreover from Cons obtain more where "recommendation_loop (Suc i) fs = Inr more"
    by auto
  ultimately show ?case by simp
qed

lemma list_all_take: "list_all P xs \<Longrightarrow> list_all P (take n xs)"
  by (auto simp: list_all_iff dest: in_set_takeD)

lemma detail_block_ok:
  "list_all all_keys L \<Longrightarrow> \<exists>ls. detail_block L = Inr ls"
  using detail_loop_ok [OF list_all_take, of L 1 20] by (auto simp: detail_block_def)

lemma recommendations_block_ok:
  "list_all all_keys L \<Longrightarrow> \<exists>ls. recommendations_block L = Inr ls"
  using recommendation_loop_ok [OF list_all_take, of L 1 5]
  by (auto simp: recommendations_block_def Let_def)

lemma interesting_record_keys:
  "fork_record r \<Longrightarrow> get_interesting r \<Longrightarrow> all_keys r"
  by (auto simp: fork_record_def error_shape_def get_interesting_def)

lemma set_interesting_sorted [simp]:
  "set (interesting_sorted results) = {r \<in> set results. get_interesting r}"
  by (auto simp: interesting_sorted_def)

lemma interesting_sorted_Nil_iff:
  "interesting_sorted results = [] \<longleftrightarrow> \<not> (\<exists>r\<in>set results. get_interesting r)"
  by (auto simp: interesting_sorted_def filter_empty_conv)

lemma interesting_sorted_keys:
  "list_all fork_record results \<Longrightarrow> list_all all_keys (interesting_sorted results)"
  by (auto simp: list_all_iff interesting_record_keys)

lemma report_lines_ok:
  assumes "list_all fork_record results"
  shows "\<exists>report. report_lines now results = Inr report"
proof -
  from assms have keys: "list_all all_keys (interesting_sorted results)"
    by (rule interesting_sorted_keys)
  obtain detail where "detail_block (interesting_sorted results) = Inr detail"
    using detail_block_ok [OF keys] by auto
  moreover obtain recs where "recommendations_block (interesting_sorted results) = Inr recs"
    using recommendations_block_ok [OF keys] by auto
  ultimately show ?thesis
    by (simp add: report_lines_def render_def)
qed

lemma detail_block_Nil [simp]: "detail_block [] = Inr []"
  by (simp add: detail_block_def)

lemma recommendations_block_Nil [simp]: "recommendations_block [] = Inr []"
  by (simp add: recommendations_block_def)

lemma no_forks_report:
  "render now n [] = Inr report \<Longrightarrow>
     u ''## Most Interesting Forks'' \<notin> set report
     \<and> u ''### Top 5 Forks to Review:'' \<notin> set report"
  by (auto simp: render_def summary_lines_def)

lemma render_report_nonempty:
  assumes "render now n L = Inr report" and "L \<noteq> []"
  shows "u ''## Most Interesting Forks'' \<in> set report
     \<and> u ''### Top 5 Forks to Review:'' \<in> set report"
  using assms
  by (auto simp: render_cases detail_block_def recommendations_block_def seq_eq_Inr
           simp del: u_Cons)

lemma render_now:
  "render now n L = map_sum id (\<lambda>ls. ls[1 := u ''Generated: '' @ now]) (render now' n L)"
  by (cases "detail_block L"; cases "recommendations_block L")
     (simp_all add: render_def del: u_Cons)


lemma render_text:
  "\<exists>body. \<forall>now. seq (render now n L) (\<lambda>report. Inr (join [10] report))
     = map_sum id (\<lambda>b. u ''# 1code Fork Analysis Report'' @ [10] @ u ''Generated: '' @ now
                        @ [10] @ b) body"
proof (cases "detail_block L")
  case (Inl e)
  then show ?thesis
    by (intro exI [of _ "Inl e"]) (simp add: render_def)
next
  case detail: (Inr detail)
  show ?thesis
  proof (cases "recommendations_block L")
    case (Inl e)
    with detail show ?thesis
      by (intro exI [of _ "Inl e"]) (simp add: render_def)
  next
    case (Inr recs)
    with detail show ?thesis
      by (intro exI [of _ "Inr (join [10] ([] # summary_lines n L @ detail
                                   @ [u ''## Recommendations'', []] @ recs))"])
         (simp add: render_def del: u_Cons join.simps add: join_header)
  qed
qed


lemma error_record_not_interesting [simp]: "\<not> get_interesting (error_record n m)"
  by (simp add: get_interesting_def error_record_def)


subsection \<open>Commit lines\<close>

lemma has_keyword_iff:
  "has_keyword c \<longleftrightarrow>
     sublist (u ''merge'') (lower c) \<or> sublist (u ''upstream'') (lower c)
     \<or> sublist (u ''sync'') (lower c)"
  by (simp add: has_keyword_def sync_keywords_def del: u_Cons)

lemma sublist_lower_iff:
  "sublist k (lower c) \<longleftrightarrow> (\<exists>v. sublist v c \<and> lower v = k)"
  unfolding lower_def
  by (metis map_mono_sublist sublist_map_rightE)

lemma unique_commits_filter:
  "unique_commits cs =
     filter (\<lambda>c. \<not> (sublist (u ''merge'') (lower c) \<or> sublist (u ''upstream'') (lower c)
                     \<or> sublist (u ''sync'') (lower c))) cs"
  unfolding unique_commits_def has_keyword_iff ..

lemma has_keyword_variant:
  "has_keyword c \<longleftrightarrow>
     (\<exists>v. sublist v c \<and> lower v \<in> {u ''merge'', u ''upstream'', u ''sync''})"
  unfolding has_keyword_iff sublist_lower_iff by blast

lemma commit_lines_Some:
  "recent_commits fork = Some cs \<Longrightarrow>
   commit_lines fork =
     (if unique_commits cs = [] then []
      else u ''**Recent Unique Commits:**''
           # map (\<lambda>commit. u ''  - '' @ take 80 commit) (take 3 (unique_commits cs)))"
  by (simp add: commit_lines_def unique_commits_def del: u_Cons)

lemma fork_detail_commit_lines:
  "fork_detail i fork = Inr ls \<Longrightarrow> sublist (commit_lines fork) ls"
proof -
  assume "fork_detail i fork = Inr ls"
  then obtain a b where "ls = a @ commit_lines fork @ b"
    unfolding fork_detail_def seq_eq_Inr
    by (metis append.assoc sum.inject(2))
  then show ?thesis by (auto simp: sublist_def)
qed

subsection \<open>Sample inputs\<close>

lemma starred_fork_keys [simp]: "all_keys (starred_fork n k)"
  by (simp add: all_keys_def starred_fork_def set_interesting_def new_result_def)

lemma starred_fork_rank [simp]: "rank_key (starred_fork n k) = (k, 0, 0)"
  by (simp add: rank_key_def starred_fork_def set_interesting_def new_result_def bare_repo_def
      get_stars_def get_ahead_by_def get_branch_count_def)

lemma starred_fork_interesting [simp]: "get_interesting (starred_fork n k) \<longleftrightarrow> k > 0"
  by (simp add: starred_fork_def set_interesting_def new_result_def bare_repo_def
      get_stars_def get_ahead_by_def get_branch_count_def get_interesting_def)

lemma error_record_shape [simp]: "error_shape (error_record n m)"
  by (simp add: error_shape_def error_record_def)

lemma store_lines:
  assumes "results < used s"
  shows "fst (generate_report_st now results s)
           = generate_report now (map (dicts s) (lists s results))"
proof -
  have "results \<noteq> used s" using assms by simp
  then show ?thesis
    by (simp add: generate_report_st_def generate_report_def report_lines_def
        interesting_sorted_def Let_def sort_reverse_map filter_map comp_def)
qed

subsection \<open>Ranking\<close>

lemma detail_loop_entries:
  "detail_loop i fs = Inr ls \<Longrightarrow>
     \<exists>lss. length lss = length fs \<and> ls = concat lss
       \<and> (\<forall>k<length fs. fork_detail (i + k) (fs ! k) = Inr (lss ! k))"
proof (induction fs arbitrary: i ls)
  case Nil
  then show ?case by simp
next
  case (Cons f fs)
  from Cons.prems obtain l0 more where
    l0: "fork_detail i f = Inr l0" and more: "detail_loop (Suc i) fs = Inr more"
    and ls: "ls = l0 @ more"
    by (auto simp: seq_eq_Inr)
  from Cons.IH [OF more] obtain lss where
    lss: "length lss = length fs" "more = concat lss"
      "\<forall>k<length fs. fork_detail (Suc i + k) (fs ! k) = Inr (lss ! k)"
    by blast
  have "\<forall>k<length (f # fs). fork_detail (i + k) ((f # fs) ! k) = Inr ((l0 # lss) ! k)"
  proof (intro allI impI)
    fix k assume "k < length (f # fs)"
    then show "fork_detail (i + k) ((f # fs) ! k) = Inr ((l0 # lss) ! k)"
      using l0 lss(3) by (cases k) simp_all
  qed
  then show ?case
    using lss(1,2) ls by (intro exI [of _ "l0 # lss"]) simp
qed

lemma recommendation_loop_entries:
  "recommendation_loop i fs = Inr ls \<Longrightarrow>
     \<exists>lss. length lss = length fs \<and> ls = concat lss
       \<and> (\<forall>k<length fs. recommendation (i + k) (fs ! k) = Inr (lss ! k))"
proof (induction fs arbitrary: i ls)
  case Nil
  then show ?case by simp
next
  case (Cons f fs)
  from Cons.prems obtain l0 more where
    l0: "recommendation i f = Inr l0" and more: "recommendation_loop (Suc i) fs = Inr more"
    and ls: "ls = l0 @ more"
    by (auto simp: seq_eq_Inr)
  from Cons.IH [OF more] obtain lss where
    lss: "length lss = length fs" "more = concat lss"
      "\<forall>k<length fs. recommendation (Suc i + k) (fs ! k) = Inr (lss ! k)"
    by blast
  have "\<forall>k<length (f # fs). recommendation (i + k) ((f # fs) ! k) = Inr ((l0 # lss) ! k)"
  proof (intro allI impI)
    fix k assume "k < length (f # fs)"
    then show "recommendation (i + k) ((f # fs) ! k) = Inr ((l0 # lss) ! k)"
      using l0 lss(3) by (cases k) simp_all
  qed
  then show ?case
    using lss(1,2) ls by (intro exI [of _ "l0 # lss"]) simp
qed

lemma detail_block_entries:
  assumes "detail_block L = Inr detail"
  shows "\<exists>dl. length dl = length (take 20 L)
      \<and> (\<forall>k<length dl. fork_detail (Suc k) (take 20 L ! k) = Inr (dl ! k))
      \<and> detail = (if L = [] then [] else [u ''## Most Interesting Forks'', []] @ concat dl)"
proof (cases "L = []")
  case True
  with assms show ?thesis by simp
next
  case False
  with assms obtain ls where ls: "detail_loop 1 (take 20 L) = Inr ls"
    and d: "detail = [u ''## Most Interesting Forks'', []] @ ls"
    by (auto simp: detail_block_def seq_eq_Inr simp del: u_Cons)
  from detail_loop_entries [OF ls] obtain dl where
    "length dl = length (take 20 L)" "ls = concat dl"
    "\<forall>k<length (take 20 L). fork_detail (1 + k) (take 20 L ! k) = Inr (dl ! k)"
    by blast
  with d False show ?thesis
    by (intro exI [of _ dl]) simp
qed

lemma recommendations_block_entries:
  assumes "recommendations_block L = Inr recs"
  shows "\<exists>rl. length rl = length (take 5 L)
      \<and> (\<forall>k<length rl. recommendation (Suc k) (take 5 L ! k) = Inr (rl ! k))
      \<and> recs = (if L = [] then [] else u ''### Top 5 Forks to Review:'' # concat rl)"
proof (cases "L = []")
  case True
  with assms show ?thesis by simp
next
  case False
  with assms obtain ls where ls: "recommendation_loop 1 (take 5 L) = Inr ls"
    and d: "recs = u ''### Top 5 Forks to Review:'' # ls"
    by (auto simp: recommendations_block_def seq_eq_Inr Let_def simp del: u_Cons)
  from recommendation_loop_entries [OF ls] obtain rl where
    "length rl = length (take 5 L)" "ls = concat rl"
    "\<forall>k<length (take 5 L). recommendation (1 + k) (take 5 L ! k) = Inr (rl ! k)"
    by blast
  with d False show ?thesis
    by (intro exI [of _ rl]) simp
qed

lemma interesting_sorted_mset:
  "mset (interesting_sorted results) = mset (filter get_interesting results)"
  by (simp add: interesting_sorted_def)

lemma interesting_sorted_desc:
  assumes "i < j" and "j < length (interesting_sorted results)"
  shows "rank_key (interesting_sorted results ! j) \<le> rank_key (interesting_sorted results ! i)"
  using assms unfolding interesting_sorted_def
  by (intro sort_reverse_nth_mono) simp_all

lemma interesting_sorted_strict:
  assumes "i < length (interesting_sorted results)" and "j < length (interesting_sorted results)"
    and "rank_key (interesting_sorted results ! j) < rank_key (interesting_sorted results ! i)"
  shows "i < j"
proof (rule ccontr)
  assume "\<not> i < j"
  then have "j \<le> i" by simp
  then have "rank_key (interesting_sorted results ! i) \<le> rank_key (interesting_sorted results ! j)"
    using assms(1) unfolding interesting_sorted_def
    by (intro sort_reverse_nth_mono) simp_all
  with assms(3) show False by simp
qed

lemma interesting_sorted_stable:
  "filter (\<lambda>r. rank_key r = k) (interesting_sorted results)
     = filter (\<lambda>r. rank_key r = k) (filter get_interesting results)"
  unfolding interesting_sorted_def by (rule sort_reverse_stable)

lemma sorted_six: "interesting_sorted six_forks = six_forks"
  by (simp add: interesting_sorted_def six_forks_def sort_reverse_def)

lemma sorted_two: "interesting_sorted two_forks = [starred_fork ''b'' 2, starred_fork ''a'' 1]"
  by (simp add: interesting_sorted_def two_forks_def sort_reverse_def)

lemma str_int_1: "str_int 1 = u ''1''" "str_int 2 = u ''2''" "str_int 3 = u ''3''"
  "str_int 4 = u ''4''" "str_int 5 = u ''5''"
  by (simp_all add: str_int_def digits.simps)

lemma recommendation_starred:
  "recommendation i (starred_fork n 1)
     = Inr [str_int (int i) @ u ''. **'' @ u n @ u ''** - 1 stars'',
            u ''   https://github.com/'' @ u n @ u ''/1code'']"
  by (simp add: recommendation_def starred_fork_def set_interesting_def new_result_def
      bare_repo_def reason_str_def reasons_def str_int_def digits.simps)

lemma length_filter_interesting_sorted:
  "length (filter P (interesting_sorted results))
     = length (filter (\<lambda>r. get_interesting r \<and> P r) results)"
proof -
  have "mset (filter P (interesting_sorted results))
      = mset (filter (\<lambda>r. get_interesting r \<and> P r) results)"
    by (simp add: interesting_sorted_def filter_filter_mset)
  then show ?thesis
    by (rule mset_eq_length)
qed

lemma length_interesting_sorted:
  "length (interesting_sorted results) = length (filter get_interesting results)"
  by (simp add: interesting_sorted_def)

lemma summary_lines_counts:
  "summary_lines (length results) (interesting_sorted results) =
     [u ''## Summary'',
      u ''- Total forks analyzed: '' @ str_int (int (length results)),
      u ''- Interesting forks: '' @ str_int (int (length (filter get_interesting results))),
      u ''- Forks with custom branches: ''
        @ str_int (int (length (filter (\<lambda>r. get_interesting r \<and> get_branch_count r > 0)
                                   results))),
      u ''- Forks ahead of upstream: ''
        @ str_int (int (length (filter (\<lambda>r. get_interesting r \<and> get_ahead_by r > 0)
                                   results))),
      u ''- Forked repos with stars: ''
        @ str_int (int (length (filter (\<lambda>r. get_interesting r \<and> get_stars r > 0) results))),
      []]"
  by (simp add: summary_lines_def length_filter_interesting_sorted length_interesting_sorted
      del: u_Cons)

subsection \<open>Requests and the analysis of one fork\<close>

lemma requests_get_simps [simp]:
  "fst (requests_get t w) = net w (issued w) t"
  "net (snd (requests_get t w)) = net w"
  "issued (snd (requests_get t w)) = Suc (issued w)"
  "trace (snd (requests_get t w)) = trace w @ [Get t]"
  "now_text (snd (requests_get t w)) = now_text w"
  "open_error (snd (requests_get t w)) = open_error w"
  by (simp_all add: requests_get_def emit_def)

lemma emit_simps [simp]:
  "net (emit ev w) = net w"
  "issued (emit ev w) = issued w"
  "trace (emit ev w) = trace w @ [ev]"
  "now_text (emit ev w) = now_text w"
  "open_error (emit ev w) = open_error w"
  by (simp_all add: emit_def)

lemma print_simps [simp]:
  "net (print s w) = net w"
  "issued (print s w) = issued w"
  "trace (print s w) = trace w @ [Print (s @ [10])]"
  "now_text (print s w) = now_text w"
  "open_error (print s w) = open_error w"
  by (simp_all add: print_def)

lemma print_no_newline_simps [simp]:
  "net (print_no_newline s w) = net w"
  "issued (print_no_newline s w) = issued w"
  "trace (print_no_newline s w) = trace w @ [Print s]"
  "now_text (print_no_newline s w) = now_text w"
  "open_error (print_no_newline s w) = open_error w"
  by (simp_all add: print_no_newline_def)

lemma sleep_simps [simp]:
  "net (sleep ms w) = net w"
  "issued (sleep ms w) = issued w"
  "trace (sleep ms w) = trace w @ [Sleep ms]"
  "now_text (sleep ms w) = now_text w"
  "open_error (sleep ms w) = open_error w"
  by (simp_all add: sleep_def)

lemma fetch_unfold:
  "fetch_github_api t w =
    (case net w (issued w) t of
       Fails e \<Rightarrow> (Inl e, snd (requests_get t w))
     | Responds r \<Rightarrow>
         if status_code r = 403
         then (case net w (Suc (issued w)) t of
                 Fails e \<Rightarrow>
                   (Inl e,
                    snd (requests_get t
                      (sleep 60000 (print (u ''Rate limited! Waiting 60 seconds...'')
                         (snd (requests_get t w))))))
               | Responds r2 \<Rightarrow>
                   (seq (raise_for_status r2) (\<lambda>_. response_json r2),
                    snd (requests_get t
                      (sleep 60000 (print (u ''Rate limited! Waiting 60 seconds...'')
                         (snd (requests_get t w)))))))
         else (seq (raise_for_status r) (\<lambda>_. response_json r), snd (requests_get t w)))"
  by (cases "net w (issued w) t"; cases "net w (Suc (issued w)) t")
     (simp_all add: fetch_github_api_def requests_get_def)

lemma raise_for_status_ok:
  "200 \<le> status_code r \<Longrightarrow> status_code r < 300 \<Longrightarrow> raise_for_status r = Inr ()"
  by (simp add: raise_for_status_def)

lemma raise_for_status_error:
  "400 \<le> status_code r \<Longrightarrow> status_code r < 600 \<Longrightarrow> \<exists>m. raise_for_status r = Inl (HTTPError m r)"
  by (simp add: raise_for_status_def)

lemma fetch_world:
  "trace (snd (fetch_github_api t w)) =
     trace w @ (if (case net w (issued w) t of Responds r \<Rightarrow> status_code r = 403
                    | Fails e \<Rightarrow> False)
                then [Get t, Print (u ''Rate limited! Waiting 60 seconds...'' @ [10]),
                      Sleep 60000, Get t]
                else [Get t])"
  "issued (snd (fetch_github_api t w)) =
     (if (case net w (issued w) t of Responds r \<Rightarrow> status_code r = 403 | Fails e \<Rightarrow> False)
      then issued w + 2 else issued w + 1)"
  "net (snd (fetch_github_api t w)) = net w"
  "now_text (snd (fetch_github_api t w)) = now_text w"
  "open_error (snd (fetch_github_api t w)) = open_error w"
  unfolding fetch_unfold
  by (simp_all split: http_result.split del: u_Cons)

lemma fetch_fst_cong:
  "net w' = net w \<Longrightarrow> issued w' = issued w \<Longrightarrow>
     fst (fetch_github_api t w') = fst (fetch_github_api t w)"
  by (simp add: fetch_unfold split: http_result.split)

lemma analyze_fork_unfold:
  "analyze_fork n w =
    (let w0 = print_no_newline (u ''Analyzing '' @ n @ u ''...'') w;
         w1 = snd (fetch_github_api (repo_url n) w0)
     in case seq (fst (fetch_github_api (repo_url n) w)) as_dict of
          Inl e \<Rightarrow> analysis_failed n e w1
        | Inr repo_data \<Rightarrow>
            (let s1 = branches_step n (new_result n repo_data) w1;
                 s2 = commits_step n (fst s1) (snd s1);
                 s3 = comparison_step n (fst s2) (snd s2)
             in (set_interesting (fst s3), sleep 500 (print (u '' '' @ [0x2713]) (snd s3)))))"
proof -
  have "fst (fetch_github_api (repo_url n) (print_no_newline (u ''Analyzing '' @ n @ u ''...'') w))
      = fst (fetch_github_api (repo_url n) w)"
    by (rule fetch_fst_cong) simp_all
  then show ?thesis
    by (simp add: analyze_fork_def case_prod_unfold Let_def split: sum.split del: u_Cons)
qed

lemma analyze_fork_raises:
  assumes "fst (fetch_github_api (repo_url n) w) = Inl e"
  shows "fst (analyze_fork n w) = error_record n (exn_str e)"
  using assms by (simp add: analyze_fork_unfold analysis_failed_def Let_def del: u_Cons)

lemma set_interesting_fields [simp]:
  "get_branch_count (set_interesting x) = get_branch_count x"
  "get_ahead_by (set_interesting x) = get_ahead_by x"
  "get_stars (set_interesting x) = get_stars x"
  "get_interesting (set_interesting x)
     = (get_branch_count x > 0 \<or> get_ahead_by x > 0 \<or> get_stars x > 0)"
  "branch_count (set_interesting x) = branch_count x"
  "ahead_by (set_interesting x) = ahead_by x"
  "stars (set_interesting x) = stars x"
  "recent_commits (set_interesting x) = recent_commits x"
  "interesting (set_interesting x)
     = Some (get_branch_count x > 0 \<or> get_ahead_by x > 0 \<or> get_stars x > 0)"
  by (simp_all add: set_interesting_def get_branch_count_def get_ahead_by_def get_stars_def
      get_interesting_def)

lemma error_record_gets [simp]:
  "get_branch_count (error_record n m) = 0"
  "get_ahead_by (error_record n m) = 0"
  "get_stars (error_record n m) = 0"
  by (simp_all add: error_record_def get_branch_count_def get_ahead_by_def get_stars_def)

lemma analyze_fork_interesting:
  "get_interesting (fst (analyze_fork n w)) \<longleftrightarrow>
     get_branch_count (fst (analyze_fork n w)) > 0
     \<or> get_ahead_by (fst (analyze_fork n w)) > 0
     \<or> get_stars (fst (analyze_fork n w)) > 0"
  by (cases "seq (fst (fetch_github_api (repo_url n) w)) as_dict")
     (simp_all add: analyze_fork_unfold analysis_failed_def Let_def del: u_Cons)

lemma branches_step_fst:
  "fst (branches_step n r w) =
     (case seq (fst (fetch_github_api (branches_url n) w))
             (\<lambda>d. seq (items_of d) branch_names) of
        Inr names \<Rightarrow> r\<lparr>custom_branches := Some names, branch_count := Some (int (length names))\<rparr>
      | Inl e \<Rightarrow> r)"
  by (simp add: branches_step_def case_prod_unfold split: sum.split)

lemma commits_step_fst:
  "fst (commits_step n r w) =
     (case seq (fst (fetch_github_api (commits_url n) w))
             (\<lambda>d. seq (items_of d) commit_first_lines) of
        Inr ls \<Rightarrow> r\<lparr>recent_commits := Some ls\<rparr>
      | Inl e \<Rightarrow> r)"
  by (simp add: commits_step_def case_prod_unfold split: sum.split)

lemma comparison_step_fst:
  "fst (comparison_step n r w) =
     (case seq (fst (fetch_github_api (compare_url n) w)) as_dict of
        Inr d \<Rightarrow> r\<lparr>ahead_by := Some (case j_ahead_by d of None \<Rightarrow> 0 | Some k \<Rightarrow> k),
                  behind_by := Some (case j_behind_by d of None \<Rightarrow> 0 | Some k \<Rightarrow> k)\<rparr>
      | Inl e \<Rightarrow> r)"
  by (simp add: comparison_step_def case_prod_unfold split: sum.split)

lemma step_net [simp]:
  "net (snd (branches_step n r w)) = net w"
  "net (snd (commits_step n r w)) = net w"
  "net (snd (comparison_step n r w)) = net w"
  by (simp_all add: branches_step_def commits_step_def comparison_step_def case_prod_unfold
      fetch_world split: sum.split)

lemma step_keeps_commits [simp]:
  "recent_commits (fst (branches_step n r w)) = recent_commits r"
  "recent_commits (fst (comparison_step n r w)) = recent_commits r"
  by (simp_all add: branches_step_fst comparison_step_fst split: sum.split)

lemma new_result_keys [simp]: "all_keys (new_result n ob)"
  by (simp add: all_keys_def new_result_def)

lemma step_keeps_keys:
  "all_keys r \<Longrightarrow> all_keys (fst (branches_step n r w))"
  "all_keys r \<Longrightarrow> all_keys (fst (commits_step n r w))"
  "all_keys r \<Longrightarrow> all_keys (fst (comparison_step n r w))"
  by (simp_all add: branches_step_fst commits_step_fst comparison_step_fst all_keys_def
      split: sum.split)

lemma set_interesting_keys: "all_keys r \<Longrightarrow> all_keys (set_interesting r)"
  by (simp add: all_keys_def set_interesting_def)

lemma analyze_fork_keys:
  assumes "fst (fetch_github_api (repo_url n) w) = Inr (Obj ob)"
  shows "all_keys (fst (analyze_fork n w))"
  using assms
  by (simp add: analyze_fork_unfold as_dict_def Let_def set_interesting_keys step_keeps_keys
      del: u_Cons)

lemma analyze_fork_record: "fork_record (fst (analyze_fork n w))"
proof (cases "seq (fst (fetch_github_api (repo_url n) w)) as_dict")
  case (Inl e)
  then show ?thesis
    by (simp add: analyze_fork_unfold analysis_failed_def Let_def fork_record_def del: u_Cons)
next
  case (Inr ob)
  then show ?thesis
    by (simp add: analyze_fork_unfold Let_def fork_record_def set_interesting_keys
        step_keeps_keys del: u_Cons)
qed

lemma commit_first_lines_msgs:
  "map commit cs = map (\<lambda>m. Some \<lparr>message = Some m\<rparr>) msgs \<Longrightarrow>
     commit_first_lines cs = Inr (map first_line msgs)"
proof (induction cs arbitrary: msgs)
  case Nil
  then show ?case by simp
next
  case (Cons c cs)
  then obtain m ms where msgs: "msgs = m # ms" by (cases msgs) auto
  with Cons.prems have c: "commit c = Some \<lparr>message = Some m\<rparr>"
    and rest: "map commit cs = map (\<lambda>m. Some \<lparr>message = Some m\<rparr>) ms"
    by simp_all
  from Cons.IH [OF rest] c show ?case
    by (simp add: msgs)
qed

lemma first_line_whole: "10 \<notin> set m \<Longrightarrow> first_line m = m"
  by (auto simp: first_line_def takeWhile_eq_all_conv)

lemma first_line_cut: "10 \<notin> set a \<Longrightarrow> first_line (a @ 10 # b) = a"
  by (auto simp: first_line_def takeWhile_tail takeWhile_eq_all_conv)

lemma analyze_fork_commits:
  assumes "fetch_github_api (repo_url n) (print_no_newline (u ''Analyzing '' @ n @ u ''...'') w)
             = (Inr (Obj ob), w1)"
    and "branches_step n (new_result n ob) w1 = (r1, w2)"
  shows "recent_commits (fst (analyze_fork n w)) =
     (case seq (fst (fetch_github_api (commits_url n) w2))
             (\<lambda>d. seq (items_of d) commit_first_lines) of
        Inr ls \<Rightarrow> Some ls
      | Inl e \<Rightarrow> Some [])"
proof -
  have "recent_commits r1 = recent_commits (new_result n ob)"
    using step_keeps_commits(1) [of n "new_result n ob" w1] assms(2) by simp
  then have "recent_commits r1 = Some []"
    by (simp add: new_result_def)
  then show ?thesis
    using assms
    by (simp add: analyze_fork_def as_dict_def case_prod_unfold commits_step_fst
        split: sum.split del: u_Cons)
qed

lemma str_int_404: "str_int 404 = u ''404''"
  by (simp add: str_int_def digits.simps)

lemma served_fetch:
  assumes "net w = net (serving table)"
  shows "fst (fetch_github_api t w) =
     (case map_of table t of
        Some b \<Rightarrow> Inr b
      | None \<Rightarrow> Inl (HTTPError (u ''404 Client Error: Not Found for url: '' @ t)
                    (reply 404 (u ''Not Found'') t
                       (Inr (Obj (no_keys\<lparr>other_keys := [u ''message'']\<rparr>))))))"
proof (cases "map_of table t")
  case None
  then show ?thesis
    using assms
    by (simp add: fetch_unfold serving_def reply_def raise_for_status_def str_int_404)
next
  case (Some b)
  then show ?thesis
    using assms
    by (simp add: fetch_unfold serving_def reply_def raise_for_status_def response_json_def)
qed

lemma analyze_fork_world [simp]:
  "net (snd (analyze_fork n w)) = net w"
  by (cases "seq (fst (fetch_github_api (repo_url n) w)) as_dict")
     (simp_all add: analyze_fork_unfold analysis_failed_def Let_def fetch_world del: u_Cons)

lemma served_missing:
  assumes "net w = net (serving table)" and "map_of table (repo_url n) = None"
  shows "fst (analyze_fork n w)
     = error_record n (u ''404 Client Error: Not Found for url: '' @ repo_url n)"
  using assms
  by (simp add: analyze_fork_raises served_fetch del: u_Cons)

lemma served_repo_only:
  assumes "net w = net (serving table)" and "map_of table (repo_url n) = Some (Obj ob)"
    and "map_of table (branches_url n) = None" and "map_of table (commits_url n) = None"
    and "map_of table (compare_url n) = None"
  shows "fst (analyze_fork n w) = set_interesting (new_result n ob)"
  using assms
  by (simp add: analyze_fork_unfold Let_def served_fetch as_dict_def fetch_world
      branches_step_fst commits_step_fst comparison_step_fst del: u_Cons)

lemma url_simps:
  "repo_url n \<noteq> branches_url n" "repo_url n \<noteq> commits_url n" "repo_url n \<noteq> compare_url n"
  "branches_url n \<noteq> commits_url n" "commits_url n \<noteq> branches_url n"
  "commits_url n \<noteq> repo_url n" "branches_url n \<noteq> repo_url n"
  "compare_url n \<noteq> repo_url n"
  by (simp_all add: repo_url_def branches_url_def commits_url_def compare_url_def del: u_Cons)
     (simp_all add: u_def)

subsection \<open>A run of the driver\<close>

lemma step_open_error [simp]:
  "open_error (snd (branches_step n r w)) = open_error w"
  "open_error (snd (commits_step n r w)) = open_error w"
  "open_error (snd (comparison_step n r w)) = open_error w"
  by (simp_all add: branches_step_def commits_step_def comparison_step_def case_prod_unfold
      fetch_world split: sum.split)

lemma analyze_fork_open_error [simp]:
  "open_error (snd (analyze_fork n w)) = open_error w"
  by (cases "seq (fst (fetch_github_api (repo_url n) w)) as_dict")
     (simp_all add: analyze_fork_unfold analysis_failed_def Let_def fetch_world del: u_Cons)

lemma served_analyze_cong:
  assumes "net w = net (serving table)" and "net w' = net (serving table)"
  shows "fst (analyze_fork n w) = fst (analyze_fork n w')"
  using assms
  by (simp add: analyze_fork_unfold Let_def served_fetch [of _ table] fetch_world
      branches_step_fst commits_step_fst comparison_step_fst analysis_failed_def
      split: sum.split del: u_Cons)

lemma analyze_loop_served:
  assumes "net w = net (serving table)"
  shows "\<exists>w'. analyze_loop owners acc w
            = (acc @ map (\<lambda>n. fst (analyze_fork n (serving table))) owners, w')
          \<and> net w' = net w \<and> open_error w' = open_error w"
  using assms
proof (induction owners arbitrary: acc w)
  case Nil
  then show ?case by simp
next
  case (Cons n owners)
  obtain r w1 where a: "analyze_fork n w = (r, w1)"
    by (cases "analyze_fork n w")
  then have r: "r = fst (analyze_fork n (serving table))"
    using served_analyze_cong [OF Cons.prems refl, of n] by simp
  from a have w1: "net w1 = net w" "open_error w1 = open_error w"
    using analyze_fork_world [of n w] analyze_fork_open_error [of n w] by simp_all
  with Cons.prems have "net w1 = net (serving table)" by simp
  from Cons.IH [OF this, of "acc @ [r]"] obtain w' where
    "analyze_loop owners (acc @ [r]) w1
       = ((acc @ [r]) @ map (\<lambda>n. fst (analyze_fork n (serving table))) owners, w')"
    "net w' = net w1" "open_error w' = open_error w1"
    by blast
  with a r w1 show ?case
    by simp
qed

lemma u_inject [simp]: "u a = u b \<longleftrightarrow> a = b"
  by (simp add: u_def inj_map_eq_map [OF inj_of_char])

lemma repo_url_inject [simp]: "repo_url a = repo_url b \<longleftrightarrow> a = b"
  by (simp add: repo_url_def del: u_Cons)

lemma other_urls:
  "branches_url (u ''MorpheusEMH'') \<noteq> repo_url (u ''pichimail'')"
  "commits_url (u ''MorpheusEMH'') \<noteq> repo_url (u ''pichimail'')"
  "compare_url (u ''MorpheusEMH'') \<noteq> repo_url (u ''pichimail'')"
  "branches_url (u ''pichimail'') \<noteq> repo_url (u ''MorpheusEMH'')"
  "commits_url (u ''pichimail'') \<noteq> repo_url (u ''MorpheusEMH'')"
  "compare_url (u ''pichimail'') \<noteq> repo_url (u ''MorpheusEMH'')"
  by (simp_all add: repo_url_def branches_url_def commits_url_def compare_url_def)

lemma stars_world_first:
  "fst (analyze_fork (u ''MorpheusEMH'') stars_world) = starred_fork ''MorpheusEMH'' 1"
  unfolding starred_fork_def stars_world_def
  by (rule served_repo_only [OF refl])
     (simp_all add: url_simps other_urls del: u_Cons)

lemma stars_world_second:
  "fst (analyze_fork (u ''pichimail'') stars_world) = starred_fork ''pichimail'' 2"
  unfolding starred_fork_def stars_world_def
  by (rule served_repo_only [OF refl])
     (simp_all add: url_simps other_urls del: u_Cons)

lemma stars_world_other:
  assumes "n \<noteq> u ''MorpheusEMH''" and "n \<noteq> u ''pichimail''"
  shows "fst (analyze_fork n stars_world)
     = error_record n (u ''404 Client Error: Not Found for url: '' @ repo_url n)"
  unfolding stars_world_def
  using assms by (intro served_missing [OF refl]) (simp del: u_Cons)

lemma rest_of_owners:
  "\<forall>n \<in> set (drop 2 FORK_OWNERS). n \<noteq> u ''MorpheusEMH'' \<and> n \<noteq> u ''pichimail''"
  by (simp add: FORK_OWNERS_def del: u_Cons)

lemma owners_split:
  "FORK_OWNERS = u ''MorpheusEMH'' # u ''pichimail'' # drop 2 FORK_OWNERS"
  "length (drop 2 FORK_OWNERS) = 98"
  by (simp_all add: FORK_OWNERS_def del: u_Cons)

lemma stars_results:
  "map (\<lambda>n. fst (analyze_fork n stars_world)) FORK_OWNERS =
     starred_fork ''MorpheusEMH'' 1 # starred_fork ''pichimail'' 2
     # map (\<lambda>n. error_record n (u ''404 Client Error: Not Found for url: '' @ repo_url n))
         (drop 2 FORK_OWNERS)"
proof -
  have "map (\<lambda>n. fst (analyze_fork n stars_world)) (drop 2 FORK_OWNERS)
     = map (\<lambda>n. error_record n (u ''404 Client Error: Not Found for url: '' @ repo_url n))
         (drop 2 FORK_OWNERS)"
    using rest_of_owners by (intro map_cong refl stars_world_other) blast+
  moreover have "map (\<lambda>n. fst (analyze_fork n stars_world)) FORK_OWNERS
     = map (\<lambda>n. fst (analyze_fork n stars_world))
         (u ''MorpheusEMH'' # u ''pichimail'' # drop 2 FORK_OWNERS)"
    using owners_split(1) by (rule arg_cong)
  ultimately show ?thesis
    by (simp add: stars_world_first stars_world_second del: u_Cons)
qed

lemma filter_error_records [simp]:
  "filter get_interesting (map (\<lambda>n. error_record n (m n)) ns) = []"
  by (induction ns) simp_all

lemma fork_summary_starred:
  "k > 0 \<Longrightarrow>
   fork_summary i (starred_fork n k)
     = Inr [str_int (int i) @ u ''. '' @ u n @ u '' ('' @ u ''https://github.com/'' @ u n
              @ u ''/1code'' @ u '')'',
            u ''   '' @ [0x2B50] @ u '' '' @ str_int k @ u '' stars'']"
  by (simp add: fork_summary_def starred_fork_def set_interesting_def new_result_def
      bare_repo_def del: u_Cons)

lemma recommendation_starred_any:
  "k > 0 \<Longrightarrow>
   recommendation i (starred_fork n k)
     = Inr [str_int (int i) @ u ''. **'' @ u n @ u ''** - '' @ str_int k @ u '' stars'',
            u ''   '' @ u ''https://github.com/'' @ u n @ u ''/1code'']"
  by (simp add: recommendation_def starred_fork_def set_interesting_def new_result_def
      bare_repo_def reason_str_def reasons_def del: u_Cons)

lemma print_summary_two:
  assumes "filter get_interesting results = [starred_fork a 1, starred_fork b 2]"
  shows "\<exists>w'. print_summary results w = (Inr (), w')
     \<and> trace w' = trace w @
        [Print ([0x2713] @ u '' Found '' @ str_int 2 @ u '' interesting forks out of ''
                @ str_int (int (length results)) @ u '' total'' @ [10]),
         Print ([10] @ u ''Top 5 Most Interesting:'' @ [10]),
         Print (str_int 1 @ u ''. '' @ u a @ u '' ('' @ u ''https://github.com/'' @ u a
                @ u ''/1code'' @ u '')'' @ [10]),
         Print (u ''   '' @ [0x2B50] @ u '' '' @ str_int 1 @ u '' stars'' @ [10]),
         Print (str_int 2 @ u ''. '' @ u b @ u '' ('' @ u ''https://github.com/'' @ u b
                @ u ''/1code'' @ u '')'' @ [10]),
         Print (u ''   '' @ [0x2B50] @ u '' '' @ str_int 2 @ u '' stars'' @ [10])]"
  by (simp add: print_summary_def assms Let_def fork_summary_starred numeral_2_eq_2
      del: u_Cons)

lemma report_two:
  assumes "filter get_interesting results = [starred_fork a 1, starred_fork b 2]"
  shows "\<exists>front. generate_report now results
     = Inr (join [10] (front @
         [u ''### Top 5 Forks to Review:'',
          str_int 1 @ u ''. **'' @ u b @ u ''** - '' @ str_int 2 @ u '' stars'',
          u ''   '' @ u ''https://github.com/'' @ u b @ u ''/1code'',
          str_int 2 @ u ''. **'' @ u a @ u ''** - '' @ str_int 1 @ u '' stars'',
          u ''   '' @ u ''https://github.com/'' @ u a @ u ''/1code'']))"
proof -
  have L: "interesting_sorted results = [starred_fork b 2, starred_fork a 1]"
    by (simp add: interesting_sorted_def assms sort_reverse_def)
  have "list_all all_keys [starred_fork b 2, starred_fork a 1]"
    by simp
  then obtain detail where d: "detail_block [starred_fork b 2, starred_fork a 1] = Inr detail"
    using detail_block_ok by blast
  have r: "recommendations_block [starred_fork b 2, starred_fork a 1]
     = Inr [u ''### Top 5 Forks to Review:'',
          str_int 1 @ u ''. **'' @ u b @ u ''** - '' @ str_int 2 @ u '' stars'',
          u ''   '' @ u ''https://github.com/'' @ u b @ u ''/1code'',
          str_int 2 @ u ''. **'' @ u a @ u ''** - '' @ str_int 1 @ u '' stars'',
          u ''   '' @ u ''https://github.com/'' @ u a @ u ''/1code'']"
    by (simp add: recommendations_block_def recommendation_starred_any numeral_2_eq_2
        del: u_Cons)
  show ?thesis
    unfolding generate_report_def report_lines_def L render_def d r
    by (intro exI [of _ "[u ''# 1code Fork Analysis Report'', u ''Generated: '' @ now, []]
           @ summary_lines (length results) [starred_fork b 2, starred_fork a 1]
           @ detail @ [u ''## Recommendations'', []]"])
       (simp del: u_Cons join.simps)
qed

lemma stars_texts:
  "str_int 1 @ u ''. '' @ u ''MorpheusEMH'' @ u '' ('' @ u ''https://github.com/''
     @ u ''MorpheusEMH'' @ u ''/1code'' @ u '')'' @ [10]
   = u ''1. MorpheusEMH (https://github.com/MorpheusEMH/1code)'' @ [10]"
  "str_int 2 @ u ''. '' @ u ''pichimail'' @ u '' ('' @ u ''https://github.com/''
     @ u ''pichimail'' @ u ''/1code'' @ u '')'' @ [10]
   = u ''2. pichimail (https://github.com/pichimail/1code)'' @ [10]"
  "u ''   '' @ [0x2B50] @ u '' '' @ str_int 1 @ u '' stars'' @ [10]
   = u ''   '' @ [0x2B50] @ u '' 1 stars'' @ [10]"
  "u ''   '' @ [0x2B50] @ u '' '' @ str_int 2 @ u '' stars'' @ [10]
   = u ''   '' @ [0x2B50] @ u '' 2 stars'' @ [10]"
  "[0x2713] @ u '' Found '' @ str_int 2 @ u '' interesting forks out of '' @ str_int 100
     @ u '' total'' @ [10]
   = [0x2713] @ u '' Found 2 interesting forks out of 100 total'' @ [10]"
  "str_int 1 @ u ''. **'' @ u ''pichimail'' @ u ''** - '' @ str_int 2 @ u '' stars''
   = u ''1. **pichimail** - 2 stars''"
  "u ''   '' @ u ''https://github.com/'' @ u ''pichimail'' @ u ''/1code''
   = u ''   https://github.com/pichimail/1code''"
  "str_int 2 @ u ''. **'' @ u ''MorpheusEMH'' @ u ''** - '' @ str_int 1 @ u '' stars''
   = u ''2. **MorpheusEMH** - 1 stars''"
  "u ''   '' @ u ''https://github.com/'' @ u ''MorpheusEMH'' @ u ''/1code''
   = u ''   https://github.com/MorpheusEMH/1code''"
  "u ''Report saved to: '' @ report_file @ [10]
   = u ''Report saved to: M:/claude_tools/1code/FORK_ANALYSIS_REPORT.md'' @ [10]"
  by (simp_all add: str_int_def digits.simps u_def report_file_def)

lemma analyze_loop_records:
  "list_all fork_record acc \<Longrightarrow> list_all fork_record (fst (analyze_loop owners acc w))"
proof (induction owners arbitrary: acc w)
  case Nil
  then show ?case by simp
next
  case (Cons n owners)
  have "list_all fork_record (acc @ [fst (analyze_fork n w)])"
    using Cons.prems by (simp add: analyze_fork_record)
  from Cons.IH [OF this, of "snd (analyze_fork n w)"] show ?case
    by (simp add: case_prod_unfold)
qed

section \<open>The report generator: claims\<close>

text \<open>
  C10. For every list of records as \<open>analyze_fork\<close> returns them (every key, or the three
  keys of the error record: \<open>analyze_fork_record\<close>, and \<open>analyze_loop_records\<close> for the list
  that \<open>main\<close> builds), the empty list included, \<open>generate_report\<close> returns normally.
  Its lines start with the title line, the timestamp line, an empty line and the summary
  block: the heading \<open>## Summary\<close>, the number of records, the number of interesting
  records, the numbers of interesting records with \<open>branch_count\<close>, with \<open>ahead_by\<close> and
  with \<open>stars\<close> above 0, and an empty line. The recommendations heading is always among
  the lines; the headings \<open>## Most Interesting Forks\<close> and \<open>### Top 5 Forks to Review:\<close>
  are among them exactly when some record of the input is interesting.
\<close>

theorem C10_report_shape:
  assumes "list_all fork_record results"
  shows "\<exists>report. report_lines now results = Inr report
      \<and> generate_report now results = Inr (join [10] report)
      \<and> u ''# 1code Fork Analysis Report'' \<in> set report
      \<and> (\<exists>rest. report =
            [u ''# 1code Fork Analysis Report'',
             u ''Generated: '' @ now,
             [],
             u ''## Summary'',
             u ''- Total forks analyzed: '' @ str_int (int (length results)),
             u ''- Interesting forks: ''
               @ str_int (int (length (filter get_interesting results))),
             u ''- Forks with custom branches: ''
               @ str_int (int (length (filter (\<lambda>r. get_interesting r \<and> get_branch_count r > 0)
                                          results))),
             u ''- Forks ahead of upstream: ''
               @ str_int (int (length (filter (\<lambda>r. get_interesting r \<and> get_ahead_by r > 0)
                                          results))),
             u ''- Forked repos with stars: ''
               @ str_int (int (length (filter (\<lambda>r. get_interesting r \<and> get_stars r > 0)
                                          results))),
             []] @ rest)
      \<and> sublist (summary_lines (length results) (interesting_sorted results)) report
      \<and> u ''## Recommendations'' \<in> set report
      \<and> (u ''## Most Interesting Forks'' \<in> set report
           \<longleftrightarrow> (\<exists>r \<in> set results. get_interesting r))
      \<and> (u ''### Top 5 Forks to Review:'' \<in> set report
           \<longleftrightarrow> (\<exists>r \<in> set results. get_interesting r))"
proof -
  obtain report where rep: "report_lines now results = Inr report"
    using report_lines_ok [OF assms] by auto
  then have ren: "render now (length results) (interesting_sorted results) = Inr report"
    by (simp add: report_lines_def)
  then obtain detail recs where
    shape: "report = [u ''# 1code Fork Analysis Report'', u ''Generated: '' @ now, []]
           @ summary_lines (length results) (interesting_sorted results) @ detail
           @ [u ''## Recommendations'', []] @ recs"
    unfolding render_cases by auto
  have "generate_report now results = Inr (join [10] report)"
    using rep by (simp add: generate_report_def)
  moreover have "u ''# 1code Fork Analysis Report'' \<in> set report"
    unfolding shape by simp
  moreover have "\<exists>rest. report =
            [u ''# 1code Fork Analysis Report'',
             u ''Generated: '' @ now,
             [],
             u ''## Summary'',
             u ''- Total forks analyzed: '' @ str_int (int (length results)),
             u ''- Interesting forks: ''
               @ str_int (int (length (filter get_interesting results))),
             u ''- Forks with custom branches: ''
               @ str_int (int (length (filter (\<lambda>r. get_interesting r \<and> get_branch_count r > 0)
                                          results))),
             u ''- Forks ahead of upstream: ''
               @ str_int (int (length (filter (\<lambda>r. get_interesting r \<and> get_ahead_by r > 0)
                                          results))),
             u ''- Forked repos with stars: ''
               @ str_int (int (length (filter (\<lambda>r. get_interesting r \<and> get_stars r > 0)
                                          results))),
             []] @ rest"
    unfolding shape summary_lines_counts
    by (intro exI [of _ "detail @ [u ''## Recommendations'', []] @ recs"]) (simp del: u_Cons)
  moreover have "sublist (summary_lines (length results) (interesting_sorted results)) report"
    unfolding shape by (metis sublist_appendI sublist_order.order.refl)
  moreover have "u ''## Recommendations'' \<in> set report"
    unfolding shape by simp
  moreover have "u ''## Most Interesting Forks'' \<in> set report
      \<longleftrightarrow> (\<exists>r \<in> set results. get_interesting r)"
    using no_forks_report [of now "length results" report]
      render_report_nonempty [OF ren] ren interesting_sorted_Nil_iff [of results]
    by metis
  moreover have "u ''### Top 5 Forks to Review:'' \<in> set report
      \<longleftrightarrow> (\<exists>r \<in> set results. get_interesting r)"
    using no_forks_report [of now "length results" report]
      render_report_nonempty [OF ren] ren interesting_sorted_Nil_iff [of results]
    by metis
  ultimately show ?thesis using rep by blast
qed

theorem C10_witness:
  "list_all fork_record [starred_fork ''a'' 1, error_record (u ''b'') (u ''timed out'')]
   \<and> (\<exists>report rest.
         report_lines [] [starred_fork ''a'' 1, error_record (u ''b'') (u ''timed out'')]
           = Inr report
         \<and> report =
            [u ''# 1code Fork Analysis Report'',
             u ''Generated: '',
             [],
             u ''## Summary'',
             u ''- Total forks analyzed: 2'',
             u ''- Interesting forks: 1'',
             u ''- Forks with custom branches: 0'',
             u ''- Forks ahead of upstream: 0'',
             u ''- Forked repos with stars: 1'',
             []] @ rest
         \<and> u ''## Recommendations'' \<in> set report
         \<and> u ''## Most Interesting Forks'' \<in> set report
         \<and> u ''### Top 5 Forks to Review:'' \<in> set report)"
proof -
  let ?rs = "[starred_fork ''a'' 1, error_record (u ''b'') (u ''timed out'')]"
  have wf: "list_all fork_record ?rs"
    by (simp add: fork_record_def)
  have ex: "\<exists>r \<in> set ?rs. get_interesting r"
    by simp
  have counts:
    "length ?rs = 2"
    "length (filter get_interesting ?rs) = 1"
    "length (filter (\<lambda>r. get_interesting r \<and> get_branch_count r > 0) ?rs) = 0"
    "length (filter (\<lambda>r. get_interesting r \<and> get_ahead_by r > 0) ?rs) = 0"
    "length (filter (\<lambda>r. get_interesting r \<and> get_stars r > 0) ?rs) = 1"
    using starred_fork_rank [of "''a''" 1] by (simp_all add: rank_key_def)
  have texts:
    "u ''Generated: '' @ [] = u ''Generated: ''"
    "u ''- Total forks analyzed: '' @ str_int (int 2) = u ''- Total forks analyzed: 2''"
    "u ''- Interesting forks: '' @ str_int (int 1) = u ''- Interesting forks: 1''"
    "u ''- Forks with custom branches: '' @ str_int (int 0) = u ''- Forks with custom branches: 0''"
    "u ''- Forks ahead of upstream: '' @ str_int (int 0) = u ''- Forks ahead of upstream: 0''"
    "u ''- Forked repos with stars: '' @ str_int (int 1) = u ''- Forked repos with stars: 1''"
    by (simp_all add: str_int_def digits.simps)
  from C10_report_shape [OF wf, of "[]", unfolded counts texts] ex show ?thesis
    using wf by blast
qed

text \<open>
  C6. The output of \<open>generate_report\<close> is a function of the record list and of the
  timestamp text, and the timestamp reaches the second line only: two runs on the same list
  give the same lines but for line 1, and the same exception if one is raised; the text is
  the title line, the line \<open>Generated:\<close> with the timestamp, and a rest that does not
  depend on the time of the run.
\<close>

theorem C6_deterministic:
  "(\<forall>now now'. report_lines now results
       = map_sum id (\<lambda>ls. ls[1 := u ''Generated: '' @ now]) (report_lines now' results))
   \<and> (\<exists>body. \<forall>now. generate_report now results
       = map_sum id (\<lambda>b. u ''# 1code Fork Analysis Report'' @ [10] @ u ''Generated: '' @ now
                          @ [10] @ b) body)"
proof
  show "\<forall>now now'. report_lines now results
       = map_sum id (\<lambda>ls. ls[1 := u ''Generated: '' @ now]) (report_lines now' results)"
    unfolding report_lines_def using render_now by blast
  show "\<exists>body. \<forall>now. generate_report now results
       = map_sum id (\<lambda>b. u ''# 1code Fork Analysis Report'' @ [10] @ u ''Generated: '' @ now
                          @ [10] @ b) body"
    unfolding generate_report_def report_lines_def by (rule render_text)
qed

text \<open>
  C5. In the detail block of a fork, the unique commits are the recent commits, in their
  order, whose lowercased text contains none of \<open>merge\<close>, \<open>upstream\<close>, \<open>sync\<close>: a commit is
  dropped exactly when it contains some spelling, in any mix of cases, of one of the three
  words, wherever it stands in the list. The lines shown are a heading and the first 80
  characters of each of the first three unique commits (nothing when there is none), and
  they are part of the fork's detail lines.
\<close>

theorem C5_commit_filter:
  "unique_commits cs =
     filter (\<lambda>c. \<not> (sublist (u ''merge'') (lower c) \<or> sublist (u ''upstream'') (lower c)
                     \<or> sublist (u ''sync'') (lower c))) cs
   \<and> (c \<in> set (unique_commits cs) \<longleftrightarrow>
        c \<in> set cs
        \<and> \<not> (\<exists>v. sublist v c \<and> lower v \<in> {u ''merge'', u ''upstream'', u ''sync''}))
   \<and> (recent_commits fork = Some cs \<longrightarrow>
        commit_lines fork =
          (if unique_commits cs = [] then []
           else u ''**Recent Unique Commits:**''
                # map (\<lambda>commit. u ''  - '' @ take 80 commit) (take 3 (unique_commits cs))))
   \<and> (fork_detail i fork = Inr ls \<longrightarrow> sublist (commit_lines fork) ls)"
proof -
  have "c \<in> set (unique_commits cs) \<longleftrightarrow>
        c \<in> set cs
        \<and> \<not> (\<exists>v. sublist v c \<and> lower v \<in> {u ''merge'', u ''upstream'', u ''sync''})"
    unfolding unique_commits_def has_keyword_variant by simp
  then show ?thesis
    using unique_commits_filter commit_lines_Some fork_detail_commit_lines by blast
qed

theorem C5_witness:
  "recent_commits busy_fork
     = Some [u ''Merge branch main'', u ''Add dark mode'', u ''SYNC with UPSTREAM'',
             replicate 100 97]
   \<and> commit_lines busy_fork
     = [u ''**Recent Unique Commits:**'', u ''  - Add dark mode'', u ''  - '' @ replicate 80 97]"
proof -
  have rc: "recent_commits busy_fork
     = Some [u ''Merge branch main'', u ''Add dark mode'', u ''SYNC with UPSTREAM'',
             replicate 100 97]"
    by (simp add: busy_fork_def)
  have uc: "unique_commits [u ''Merge branch main'', u ''Add dark mode'',
              u ''SYNC with UPSTREAM'', replicate 100 97]
            = [u ''Add dark mode'', replicate 100 97]"
    by code_simp
  have tk: "take 80 (replicate 100 (97::nat)) = replicate 80 97"
    by simp
  have tk2: "u ''  - '' @ take 80 (u ''Add dark mode'') = u ''  - Add dark mode''"
    by (simp add: u_def)
  show ?thesis
    using C5_commit_filter [of "[u ''Merge branch main'', u ''Add dark mode'',
        u ''SYNC with UPSTREAM'', replicate 100 97]" "[]" busy_fork 1 "[]"] rc
    by (simp add: uc tk tk2 del: u_Cons take_replicate)
qed

text \<open>
  C9. \<open>generate_report\<close> leaves its argument as it found it. On a store where \<open>results\<close> is
  the address of an allocated list, after the call every dictionary is unchanged, every
  list allocated before the call is unchanged (the list \<open>results\<close> among them: same items,
  same order), and the in-place sort has written to the new list only, allocated by the
  call at the first free address. The text returned is the one computed from the records
  that \<open>results\<close> holds.
\<close>

theorem C9_input_unchanged:
  assumes "results < used s"
  shows "dicts (snd (generate_report_st now results s)) = dicts s
     \<and> (\<forall>a. a < used s \<longrightarrow> lists (snd (generate_report_st now results s)) a = lists s a)
     \<and> lists (snd (generate_report_st now results s)) results = lists s results
     \<and> map (dicts (snd (generate_report_st now results s)))
           (lists (snd (generate_report_st now results s)) results)
         = map (dicts s) (lists s results)
     \<and> lists (snd (generate_report_st now results s)) (used s)
         = sort_reverse (\<lambda>x. rank_key (dicts s x))
             (filter (\<lambda>r. get_interesting (dicts s r)) (lists s results))
     \<and> fst (generate_report_st now results s)
         = generate_report now (map (dicts s) (lists s results))"
proof -
  have ne: "results \<noteq> used s" using assms by simp
  have "fst (generate_report_st now results s)
         = generate_report now (map (dicts s) (lists s results))"
    using assms by (rule store_lines)
  moreover have "dicts (snd (generate_report_st now results s)) = dicts s"
    by (simp add: generate_report_st_def Let_def)
  moreover have
    "\<forall>a. a < used s \<longrightarrow> lists (snd (generate_report_st now results s)) a = lists s a"
    by (simp add: generate_report_st_def Let_def)
  moreover have "lists (snd (generate_report_st now results s)) (used s)
         = sort_reverse (\<lambda>x. rank_key (dicts s x))
             (filter (\<lambda>r. get_interesting (dicts s r)) (lists s results))"
    using ne by (simp add: generate_report_st_def Let_def)
  ultimately show ?thesis using assms by simp
qed

theorem C9_witness:
  "0 < used two_stores
   \<and> lists (snd (generate_report_st [] 0 two_stores)) 0 = [0, 1]
   \<and> map (dicts (snd (generate_report_st [] 0 two_stores)))
         (lists (snd (generate_report_st [] 0 two_stores)) 0)
       = [starred_fork ''a'' 1, starred_fork ''b'' 2]
   \<and> lists (snd (generate_report_st [] 0 two_stores)) 1 = [1, 0]"
proof -
  have u: "0 < used two_stores" by (simp add: two_stores_def)
  show ?thesis
    using C9_input_unchanged [OF u, of "[]"]
    by (simp add: two_stores_def sort_reverse_def)
qed

section \<open>Ranking: claim C1\<close>

text \<open>
  C1, as amended. When \<open>generate_report\<close> returns, the detail section renders, in order
  and numbered from 1, the first 20 records of the sorted list of interesting records, and
  the recommendations section the first 5. The sorted list holds exactly the records with
  \<open>interesting\<close> true; a record placed before another has a key
  \<open>(stars, ahead_by, branch_count)\<close> that is lexicographically greater or equal; of two
  records with different keys the one with the greater key comes first; records with equal
  keys keep the order they have in the input.
\<close>

theorem C1_ranked_sections:
  assumes "report_lines now results = Inr report"
  shows "\<exists>dl rl.
      length dl = length (take 20 (interesting_sorted results))
    \<and> (\<forall>k<length dl. fork_detail (Suc k) (take 20 (interesting_sorted results) ! k) = Inr (dl ! k))
    \<and> length rl = length (take 5 (interesting_sorted results))
    \<and> (\<forall>k<length rl. recommendation (Suc k) (take 5 (interesting_sorted results) ! k)
                        = Inr (rl ! k))
    \<and> report = [u ''# 1code Fork Analysis Report'', u ''Generated: '' @ now, []]
        @ summary_lines (length results) (interesting_sorted results)
        @ (if interesting_sorted results = [] then []
           else [u ''## Most Interesting Forks'', []] @ concat dl)
        @ [u ''## Recommendations'', []]
        @ (if interesting_sorted results = [] then []
           else u ''### Top 5 Forks to Review:'' # concat rl)
    \<and> mset (interesting_sorted results) = mset (filter get_interesting results)
    \<and> (\<forall>i j. i < j \<and> j < length (interesting_sorted results) \<longrightarrow>
          rank_key (interesting_sorted results ! j) \<le> rank_key (interesting_sorted results ! i))
    \<and> (\<forall>i j. i < length (interesting_sorted results) \<and> j < length (interesting_sorted results)
          \<and> rank_key (interesting_sorted results ! j) < rank_key (interesting_sorted results ! i)
          \<longrightarrow> i < j)
    \<and> (\<forall>k. filter (\<lambda>r. rank_key r = k) (interesting_sorted results)
            = filter (\<lambda>r. rank_key r = k) (filter get_interesting results))"
proof -
  from assms obtain detail recs where
    d: "detail_block (interesting_sorted results) = Inr detail"
    and r: "recommendations_block (interesting_sorted results) = Inr recs"
    and rep: "report = [u ''# 1code Fork Analysis Report'', u ''Generated: '' @ now, []]
        @ summary_lines (length results) (interesting_sorted results) @ detail
        @ [u ''## Recommendations'', []] @ recs"
    unfolding report_lines_def render_cases by blast
  from detail_block_entries [OF d] obtain dl where
    dl: "length dl = length (take 20 (interesting_sorted results))"
      "\<forall>k<length dl. fork_detail (Suc k) (take 20 (interesting_sorted results) ! k) = Inr (dl ! k)"
      "detail = (if interesting_sorted results = [] then []
                 else [u ''## Most Interesting Forks'', []] @ concat dl)"
    by blast
  from recommendations_block_entries [OF r] obtain rl where
    rl: "length rl = length (take 5 (interesting_sorted results))"
      "\<forall>k<length rl. recommendation (Suc k) (take 5 (interesting_sorted results) ! k)
                        = Inr (rl ! k)"
      "recs = (if interesting_sorted results = [] then []
               else u ''### Top 5 Forks to Review:'' # concat rl)"
    by blast
  have rep': "report = [u ''# 1code Fork Analysis Report'', u ''Generated: '' @ now, []]
        @ summary_lines (length results) (interesting_sorted results)
        @ (if interesting_sorted results = [] then []
           else [u ''## Most Interesting Forks'', []] @ concat dl)
        @ [u ''## Recommendations'', []]
        @ (if interesting_sorted results = [] then []
           else u ''### Top 5 Forks to Review:'' # concat rl)"
    unfolding rep dl(3) rl(3) ..
  show ?thesis
    using dl(1,2) rl(1,2) rep' interesting_sorted_mset interesting_sorted_desc
      interesting_sorted_strict interesting_sorted_stable
    by blast
qed

theorem C1_witness:
  "interesting_sorted two_forks = [starred_fork ''b'' 2, starred_fork ''a'' 1]
   \<and> (\<exists>report dl rl. report_lines [] two_forks = Inr report
        \<and> length dl = 2 \<and> length rl = 2
        \<and> fork_detail 1 (starred_fork ''b'' 2) = Inr (dl ! 0)
        \<and> fork_detail 2 (starred_fork ''a'' 1) = Inr (dl ! 1)
        \<and> recommendation 1 (starred_fork ''b'' 2) = Inr (rl ! 0)
        \<and> recommendation 2 (starred_fork ''a'' 1) = Inr (rl ! 1)
        \<and> report = [u ''# 1code Fork Analysis Report'', u ''Generated: '', []]
            @ summary_lines 2 [starred_fork ''b'' 2, starred_fork ''a'' 1]
            @ [u ''## Most Interesting Forks'', []] @ concat dl
            @ [u ''## Recommendations'', []]
            @ u ''### Top 5 Forks to Review:'' # concat rl)"
proof -
  have "list_all fork_record two_forks"
    by (simp add: two_forks_def fork_record_def)
  then obtain report where rep: "report_lines [] two_forks = Inr report"
    using report_lines_ok by blast
  from C1_ranked_sections [OF rep] obtain dl rl where
    h: "length dl = length (take 20 (interesting_sorted two_forks))"
      "\<forall>k<length dl. fork_detail (Suc k) (take 20 (interesting_sorted two_forks) ! k) = Inr (dl ! k)"
      "length rl = length (take 5 (interesting_sorted two_forks))"
      "\<forall>k<length rl. recommendation (Suc k) (take 5 (interesting_sorted two_forks) ! k)
                        = Inr (rl ! k)"
      "report = [u ''# 1code Fork Analysis Report'', u ''Generated: '' @ [], []]
        @ summary_lines (length two_forks) (interesting_sorted two_forks)
        @ (if interesting_sorted two_forks = [] then []
           else [u ''## Most Interesting Forks'', []] @ concat dl)
        @ [u ''## Recommendations'', []]
        @ (if interesting_sorted two_forks = [] then []
           else u ''### Top 5 Forks to Review:'' # concat rl)"
    by blast
  have len: "length dl = 2" "length rl = 2"
    using h(1,3) by (simp_all add: sorted_two)
  have "fork_detail (Suc 0) (take 20 (interesting_sorted two_forks) ! 0) = Inr (dl ! 0)"
       "fork_detail (Suc 1) (take 20 (interesting_sorted two_forks) ! 1) = Inr (dl ! 1)"
       "recommendation (Suc 0) (take 5 (interesting_sorted two_forks) ! 0) = Inr (rl ! 0)"
       "recommendation (Suc 1) (take 5 (interesting_sorted two_forks) ! 1) = Inr (rl ! 1)"
    using h(2,4) len by simp_all
  then have e: "fork_detail 1 (starred_fork ''b'' 2) = Inr (dl ! 0)"
      "fork_detail 2 (starred_fork ''a'' 1) = Inr (dl ! 1)"
      "recommendation 1 (starred_fork ''b'' 2) = Inr (rl ! 0)"
      "recommendation 2 (starred_fork ''a'' 1) = Inr (rl ! 1)"
    by (simp_all add: sorted_two numeral_2_eq_2)
  have r: "report = [u ''# 1code Fork Analysis Report'', u ''Generated: '', []]
            @ summary_lines 2 [starred_fork ''b'' 2, starred_fork ''a'' 1]
            @ [u ''## Most Interesting Forks'', []] @ concat dl
            @ [u ''## Recommendations'', []]
            @ u ''### Top 5 Forks to Review:'' # concat rl"
    using h(5) [unfolded sorted_two] by (simp add: two_forks_def numeral_2_eq_2 del: u_Cons)
  from sorted_two rep len e r show ?thesis by blast
qed

text \<open>
  C1 as stated fails on six interesting records with equal keys: the recommendations
  section lists five of the six, and the second listed record has a key greater or equal to
  the first one's without standing before it.
\<close>

theorem C1_counterexample:
  "recommendations_block (interesting_sorted six_forks)
     = Inr [u ''### Top 5 Forks to Review:'',
            u ''1. **a** - 1 stars'', u ''   https://github.com/a/1code'',
            u ''2. **b** - 1 stars'', u ''   https://github.com/b/1code'',
            u ''3. **c** - 1 stars'', u ''   https://github.com/c/1code'',
            u ''4. **d** - 1 stars'', u ''   https://github.com/d/1code'',
            u ''5. **e** - 1 stars'', u ''   https://github.com/e/1code'']
   \<and> filter get_interesting six_forks = six_forks
   \<and> length six_forks = 6
   \<and> mset (take 5 (interesting_sorted six_forks)) \<noteq> mset (filter get_interesting six_forks)
   \<and> \<not> (\<forall>i j. i < length (take 5 (interesting_sorted six_forks))
             \<and> j < length (take 5 (interesting_sorted six_forks)) \<and> i \<noteq> j
          \<longrightarrow> (i < j \<longleftrightarrow> rank_key (take 5 (interesting_sorted six_forks) ! j)
                           \<le> rank_key (take 5 (interesting_sorted six_forks) ! i)))"
proof -
  have a: "recommendations_block (interesting_sorted six_forks)
     = Inr [u ''### Top 5 Forks to Review:'',
            u ''1. **a** - 1 stars'', u ''   https://github.com/a/1code'',
            u ''2. **b** - 1 stars'', u ''   https://github.com/b/1code'',
            u ''3. **c** - 1 stars'', u ''   https://github.com/c/1code'',
            u ''4. **d** - 1 stars'', u ''   https://github.com/d/1code'',
            u ''5. **e** - 1 stars'', u ''   https://github.com/e/1code'']"
    unfolding sorted_six
    by (simp add: six_forks_def recommendations_block_def recommendation_starred str_int_def digits.simps)
  have b: "filter get_interesting six_forks = six_forks" "length six_forks = 6"
    by (simp_all add: six_forks_def)
  have s5: "length (take 5 (interesting_sorted six_forks)) = 5"
    unfolding sorted_six by (simp add: six_forks_def)
  have s6: "length (filter get_interesting six_forks) = 6"
    by (simp add: six_forks_def)
  have c: "mset (take 5 (interesting_sorted six_forks))
      \<noteq> mset (filter get_interesting six_forks)"
  proof
    assume "mset (take 5 (interesting_sorted six_forks)) = mset (filter get_interesting six_forks)"
    then have "length (take 5 (interesting_sorted six_forks))
        = length (filter get_interesting six_forks)"
      by (rule mset_eq_length)
    with s5 s6 show False by linarith
  qed
  have d: "\<not> (\<forall>i j. i < length (take 5 (interesting_sorted six_forks))
             \<and> j < length (take 5 (interesting_sorted six_forks)) \<and> i \<noteq> j
          \<longrightarrow> (i < j \<longleftrightarrow> rank_key (take 5 (interesting_sorted six_forks) ! j)
                           \<le> rank_key (take 5 (interesting_sorted six_forks) ! i)))"
  proof
    assume "\<forall>i j. i < length (take 5 (interesting_sorted six_forks))
             \<and> j < length (take 5 (interesting_sorted six_forks)) \<and> i \<noteq> j
          \<longrightarrow> (i < j \<longleftrightarrow> rank_key (take 5 (interesting_sorted six_forks) ! j)
                           \<le> rank_key (take 5 (interesting_sorted six_forks) ! i))"
    then have "1 < length (take 5 (interesting_sorted six_forks))
             \<and> 0 < length (take 5 (interesting_sorted six_forks)) \<and> (1::nat) \<noteq> 0
          \<longrightarrow> ((1::nat) < 0 \<longleftrightarrow> rank_key (take 5 (interesting_sorted six_forks) ! 0)
                           \<le> rank_key (take 5 (interesting_sorted six_forks) ! 1))"
      by blast
    then show False
      unfolding sorted_six by (simp add: six_forks_def)
  qed
  from a b c d show ?thesis by blast
qed

section \<open>The API client and the fork analyzer: claims\<close>

text \<open>
  C2. \<open>fetch_github_api\<close> issues one GET request, or two: when the first response has
  status 403 it prints the notice, sleeps 60 seconds and asks once more, and in no other
  case does it ask again. When the first response is 403 and the second has a 2xx status
  and a body that parses as JSON, it returns that parsed body. When the last response (the
  first one if it is not 403, else the second) has a status from 400 to 599, it raises an
  \<open>HTTPError\<close> that carries that response, status and body.
\<close>

theorem C2_fetch_retry:
  "trace (snd (fetch_github_api t w)) =
     trace w @ (if (case net w (issued w) t of Responds r \<Rightarrow> status_code r = 403
                    | Fails e \<Rightarrow> False)
                then [Get t, Print (u ''Rate limited! Waiting 60 seconds...'' @ [10]),
                      Sleep 60000, Get t]
                else [Get t])
   \<and> issued (snd (fetch_github_api t w)) \<le> issued w + 2
   \<and> (net w (issued w) t = Responds r1 \<and> status_code r1 = 403
        \<and> net w (Suc (issued w)) t = Responds r2
        \<and> 200 \<le> status_code r2 \<and> status_code r2 < 300 \<and> json r2 = Inr b
      \<longrightarrow> fst (fetch_github_api t w) = Inr b)
   \<and> (net w (issued w) t = Responds r1 \<and> status_code r1 \<noteq> 403
        \<and> 400 \<le> status_code r1 \<and> status_code r1 < 600
      \<longrightarrow> (\<exists>m. fst (fetch_github_api t w) = Inl (HTTPError m r1)))
   \<and> (net w (issued w) t = Responds r1 \<and> status_code r1 = 403
        \<and> net w (Suc (issued w)) t = Responds r2
        \<and> 400 \<le> status_code r2 \<and> status_code r2 < 600
      \<longrightarrow> (\<exists>m. fst (fetch_github_api t w) = Inl (HTTPError m r2)))"
proof (intro conjI impI)
  show "trace (snd (fetch_github_api t w)) =
     trace w @ (if (case net w (issued w) t of Responds r \<Rightarrow> status_code r = 403
                    | Fails e \<Rightarrow> False)
                then [Get t, Print (u ''Rate limited! Waiting 60 seconds...'' @ [10]),
                      Sleep 60000, Get t]
                else [Get t])"
    by (rule fetch_world)
  show "issued (snd (fetch_github_api t w)) \<le> issued w + 2"
    by (simp add: fetch_world(2))
next
  assume a: "net w (issued w) t = Responds r1 \<and> status_code r1 = 403
        \<and> net w (Suc (issued w)) t = Responds r2
        \<and> 200 \<le> status_code r2 \<and> status_code r2 < 300 \<and> json r2 = Inr b"
  then have "raise_for_status r2 = Inr ()"
    by (simp add: raise_for_status_ok)
  with a show "fst (fetch_github_api t w) = Inr b"
    by (simp add: fetch_unfold response_json_def)
next
  assume a: "net w (issued w) t = Responds r1 \<and> status_code r1 \<noteq> 403
        \<and> 400 \<le> status_code r1 \<and> status_code r1 < 600"
  then obtain m where "raise_for_status r1 = Inl (HTTPError m r1)"
    using raise_for_status_error by blast
  with a show "\<exists>m. fst (fetch_github_api t w) = Inl (HTTPError m r1)"
    by (simp add: fetch_unfold)
next
  assume a: "net w (issued w) t = Responds r1 \<and> status_code r1 = 403
        \<and> net w (Suc (issued w)) t = Responds r2
        \<and> 400 \<le> status_code r2 \<and> status_code r2 < 600"
  then obtain m where "raise_for_status r2 = Inl (HTTPError m r2)"
    using raise_for_status_error by blast
  with a show "\<exists>m. fst (fetch_github_api t w) = Inl (HTTPError m r2)"
    by (simp add: fetch_unfold)
qed

theorem C2_witness:
  "fst (fetch_github_api (u ''x'') flaky_world) = Inr (Obj (bare_repo 3))
   \<and> trace (snd (fetch_github_api (u ''x'') flaky_world))
       = [Get (u ''x''), Print (u ''Rate limited! Waiting 60 seconds...'' @ [10]),
          Sleep 60000, Get (u ''x'')]
   \<and> (\<exists>m. fst (fetch_github_api (u ''x'') down_world)
         = Inl (HTTPError m (reply 503 (u ''Service Unavailable'') (u ''x'')
                               (Inl (u ''Expecting value'')))))
   \<and> trace (snd (fetch_github_api (u ''x'') down_world)) = [Get (u ''x'')]"
  using
    C2_fetch_retry [of "u ''x''" flaky_world
      "reply 403 (u ''Forbidden'') (u ''x'') (Inl (u ''Expecting value''))"
      "reply 200 (u ''OK'') (u ''x'') (Inr (Obj (bare_repo 3)))" "Obj (bare_repo 3)"]
    C2_fetch_retry [of "u ''x''" down_world
      "reply 503 (u ''Service Unavailable'') (u ''x'') (Inl (u ''Expecting value''))"
      "reply 503 (u ''Service Unavailable'') (u ''x'') (Inl (u ''Expecting value''))"
      "Obj (bare_repo 3)"]
  by (simp add: flaky_world_def down_world_def reply_def del: u_Cons)



text \<open>
  C4. The record returned by \<open>analyze_fork\<close> has \<open>interesting\<close> true exactly when its
  \<open>branch_count\<close>, its \<open>ahead_by\<close> or its \<open>stars\<close> is above 0, read on the record as
  returned. When the repository fetch returns a JSON object the three keys and
  \<open>interesting\<close> are present, with these values.
\<close>

theorem C4_interesting_predicate:
  "(get_interesting (fst (analyze_fork n w)) \<longleftrightarrow>
      get_branch_count (fst (analyze_fork n w)) > 0
      \<or> get_ahead_by (fst (analyze_fork n w)) > 0
      \<or> get_stars (fst (analyze_fork n w)) > 0)
   \<and> (fst (fetch_github_api (repo_url n) w) = Inr (Obj ob) \<longrightarrow>
        (\<exists>b a s. branch_count (fst (analyze_fork n w)) = Some b
           \<and> ahead_by (fst (analyze_fork n w)) = Some a
           \<and> stars (fst (analyze_fork n w)) = Some s
           \<and> interesting (fst (analyze_fork n w)) = Some (b > 0 \<or> a > 0 \<or> s > 0)))"
proof (intro conjI impI)
  show "get_interesting (fst (analyze_fork n w)) \<longleftrightarrow>
      get_branch_count (fst (analyze_fork n w)) > 0
      \<or> get_ahead_by (fst (analyze_fork n w)) > 0
      \<or> get_stars (fst (analyze_fork n w)) > 0"
    by (rule analyze_fork_interesting)
next
  assume ok: "fst (fetch_github_api (repo_url n) w) = Inr (Obj ob)"
  then obtain r3 where r: "fst (analyze_fork n w) = set_interesting r3" and k: "all_keys r3"
    by (simp add: analyze_fork_unfold as_dict_def Let_def step_keeps_keys del: u_Cons)
  from k obtain b a s where f: "branch_count r3 = Some b" "ahead_by r3 = Some a" "stars r3 = Some s"
    by (auto simp: all_keys_def)
  then have "interesting (set_interesting r3) = Some (b > 0 \<or> a > 0 \<or> s > 0)"
    by (simp add: get_branch_count_def get_ahead_by_def get_stars_def)
  with f r show "\<exists>b a s. branch_count (fst (analyze_fork n w)) = Some b
           \<and> ahead_by (fst (analyze_fork n w)) = Some a
           \<and> stars (fst (analyze_fork n w)) = Some s
           \<and> interesting (fst (analyze_fork n w)) = Some (b > 0 \<or> a > 0 \<or> s > 0)"
    by simp
qed

theorem C4_witness:
  "fst (fetch_github_api (repo_url (u ''a'')) (serving [(repo_url (u ''a''), Obj (bare_repo 3))]))
     = Inr (Obj (bare_repo 3))
   \<and> interesting (fst (analyze_fork (u ''a'') (serving [(repo_url (u ''a''), Obj (bare_repo 3))])))
     = Some True
   \<and> stars (fst (analyze_fork (u ''a'') (serving [(repo_url (u ''a''), Obj (bare_repo 3))])))
     = Some 3
   \<and> interesting (fst (analyze_fork (u ''a'') (serving [(repo_url (u ''a''), Obj (bare_repo 0))])))
     = Some False"
proof -
  have f: "fst (fetch_github_api (repo_url (u ''a'')) (serving [(repo_url (u ''a''), Obj (bare_repo k))]))
     = Inr (Obj (bare_repo k))" for k
    by (simp add: served_fetch del: u_Cons)
  have r: "fst (analyze_fork (u ''a'') (serving [(repo_url (u ''a''), Obj (bare_repo k))]))
     = set_interesting (new_result (u ''a'') (bare_repo k))" for k
    by (rule served_repo_only [where table = "[(repo_url (u ''a''), Obj (bare_repo k))]"])
       (simp_all add: url_simps del: u_Cons)
  note c3 = C4_interesting_predicate
      [of "u ''a''" "serving [(repo_url (u ''a''), Obj (bare_repo 3))]" "bare_repo 3",
       unfolded r f]
  note c0 = C4_interesting_predicate
      [of "u ''a''" "serving [(repo_url (u ''a''), Obj (bare_repo 0))]" "bare_repo 0",
       unfolded r f]
  have g: "get_stars (new_result n (bare_repo k)) = k"
    "get_branch_count (new_result n (bare_repo k)) = 0"
    "get_ahead_by (new_result n (bare_repo k)) = 0"
    "stars (new_result n (bare_repo k)) = Some k" for k n
    by (simp_all add: new_result_def bare_repo_def get_branch_count_def get_ahead_by_def
        get_stars_def)
  show ?thesis
    unfolding r f using c3 c0 by (simp add: g)
qed

text \<open>
  C8, as amended. Take an owner whose repository fetch returns a JSON object, and the world
  \<open>w2\<close> in which the commits fetch is made (after the branches step). If that fetch returns
  an array of commit objects with messages \<open>msgs\<close>, \<open>recent_commits\<close> of the returned
  record is the list of the first lines of \<open>msgs\<close>, in the order of the array and with one
  entry for each commit of the array: the code asks for \<open>per_page=10\<close> and does not cut the
  list, so there are at most 10 entries when the API returns at most 10 commits. If the
  fetch raises, \<open>recent_commits\<close> is the empty list. The first line of a message is the text
  before its first newline.
\<close>

theorem C8_recent_commits:
  assumes "fetch_github_api (repo_url n) (print_no_newline (u ''Analyzing '' @ n @ u ''...'') w)
             = (Inr (Obj ob), w1)"
    and "branches_step n (new_result n ob) w1 = (r1, w2)"
  shows "(fst (fetch_github_api (commits_url n) w2) = Inr (Arr cs)
          \<and> map commit cs = map (\<lambda>m. Some \<lparr>message = Some m\<rparr>) msgs
        \<longrightarrow> recent_commits (fst (analyze_fork n w)) = Some (map first_line msgs)
            \<and> length (map first_line msgs) = length cs)
     \<and> (fst (fetch_github_api (commits_url n) w2) = Inr (Arr cs)
          \<and> map commit cs = map (\<lambda>m. Some \<lparr>message = Some m\<rparr>) msgs \<and> length cs \<le> 10
        \<longrightarrow> (\<exists>ls. recent_commits (fst (analyze_fork n w)) = Some ls \<and> length ls \<le> 10))
     \<and> (fst (fetch_github_api (commits_url n) w2) = Inl e
        \<longrightarrow> recent_commits (fst (analyze_fork n w)) = Some [])
     \<and> (10 \<notin> set a \<longrightarrow> first_line (a @ 10 # b) = a \<and> first_line a = a)
     \<and> commits_url n
         = u ''https://api.github.com/repos/'' @ n @ u ''/1code/commits?per_page=10''"
proof -
  note rc = analyze_fork_commits [OF assms]
  have 1: "recent_commits (fst (analyze_fork n w)) = Some (map first_line msgs)
            \<and> length (map first_line msgs) = length cs"
    if "fst (fetch_github_api (commits_url n) w2) = Inr (Arr cs)
          \<and> map commit cs = map (\<lambda>m. Some \<lparr>message = Some m\<rparr>) msgs"
  proof -
    from that have "commit_first_lines cs = Inr (map first_line msgs)"
      by (simp add: commit_first_lines_msgs)
    moreover from that have "length msgs = length cs"
      by (metis length_map)
    ultimately show ?thesis
      using that by (simp add: rc items_of_def)
  qed
  have 3: "recent_commits (fst (analyze_fork n w)) = Some []"
    if "fst (fetch_github_api (commits_url n) w2) = Inl e"
    using that by (simp add: rc)
  have 4: "10 \<notin> set a \<longrightarrow> first_line (a @ 10 # b) = a \<and> first_line a = a"
    by (simp add: first_line_cut first_line_whole)
  have 5: "commits_url n
         = u ''https://api.github.com/repos/'' @ n @ u ''/1code/commits?per_page=10''"
    by (simp add: commits_url_def)
  from 1 3 4 5 show ?thesis
    by (metis (no_types, lifting))
qed

theorem C8_witness:
  "recent_commits (fst (analyze_fork (u ''a'') commits_world))
     = Some [u ''Fix bug'', u ''Merge main'']
   \<and> recent_commits (fst (analyze_fork (u ''a'') (serving [(repo_url (u ''a''), Obj (bare_repo 0))])))
     = Some []"
proof -
  let ?t = "[(repo_url (u ''a''), Obj (bare_repo 0)),
             (commits_url (u ''a''),
              Arr [commit_item (u ''Fix bug'' @ [10] @ u ''and more''),
                   commit_item (u ''Merge main'')])]"
  let ?p = "print_no_newline (u ''Analyzing '' @ u ''a'' @ u ''...'')"
  let ?w1 = "snd (fetch_github_api (repo_url (u ''a'')) (?p commits_world))"
  let ?b = "branches_step (u ''a'') (new_result (u ''a'') (bare_repo 0)) ?w1"
  have n1: "net ?w1 = net (serving ?t)"
    by (simp add: fetch_world commits_world_def del: u_Cons)
  have h1: "fetch_github_api (repo_url (u ''a'')) (?p commits_world) = (Inr (Obj (bare_repo 0)), ?w1)"
    by (rule prod_eqI) (simp_all add: served_fetch [of _ ?t] commits_world_def del: u_Cons)
  have h2: "?b = (fst ?b, snd ?b)"
    by simp
  have h3: "fst (fetch_github_api (commits_url (u ''a'')) (snd ?b))
     = Inr (Arr [commit_item (u ''Fix bug'' @ [10] @ u ''and more''),
                 commit_item (u ''Merge main'')])"
    using n1 by (simp add: served_fetch [of _ ?t] url_simps del: u_Cons)
  have h4: "map commit [commit_item (u ''Fix bug'' @ [10] @ u ''and more''),
                 commit_item (u ''Merge main'')]
     = map (\<lambda>m. Some \<lparr>message = Some m\<rparr>) [u ''Fix bug'' @ [10] @ u ''and more'', u ''Merge main'']"
    by (simp add: commit_item_def no_keys_def)
  have fl: "first_line (u ''Fix bug'' @ 10 # u ''and more'') = u ''Fix bug''"
    "first_line (u ''Merge main'') = u ''Merge main''"
    by (simp_all add: first_line_def)
  let ?q = "serving [(repo_url (u ''a''), Obj (bare_repo 0))]"
  let ?v1 = "snd (fetch_github_api (repo_url (u ''a'')) (?p ?q))"
  let ?c = "branches_step (u ''a'') (new_result (u ''a'') (bare_repo 0)) ?v1"
  have g1: "fetch_github_api (repo_url (u ''a'')) (?p ?q) = (Inr (Obj (bare_repo 0)), ?v1)"
    by (rule prod_eqI)
       (simp_all add: served_fetch [of _ "[(repo_url (u ''a''), Obj (bare_repo 0))]"] del: u_Cons)
  have g2: "?c = (fst ?c, snd ?c)"
    by simp
  have "net (snd ?c) = net ?q"
    by (simp add: fetch_world del: u_Cons)
  then obtain e where g3: "fst (fetch_github_api (commits_url (u ''a'')) (snd ?c)) = Inl e"
    by (simp add: served_fetch [of _ "[(repo_url (u ''a''), Obj (bare_repo 0))]"] url_simps
        del: u_Cons)
  show ?thesis
    using C8_recent_commits [OF h1 h2, of "[commit_item (u ''Fix bug'' @ [10] @ u ''and more''),
                 commit_item (u ''Merge main'')]"
              "[u ''Fix bug'' @ [10] @ u ''and more'', u ''Merge main'']"] h3 h4
      C8_recent_commits [OF g1 g2, of _ _ e] g3
    by (simp add: fl del: u_Cons)
qed

text \<open>
  C8 as stated fails when the API returns more commits than were asked for: with eleven
  commits in the answer, \<open>recent_commits\<close> has eleven entries.
\<close>

theorem C8_counterexample:
  "recent_commits (fst (analyze_fork (u ''a'') eleven_world)) = Some (replicate 11 (u ''wip''))
   \<and> length (replicate 11 (u ''wip'')) = 11
   \<and> \<not> (\<exists>ls. recent_commits (fst (analyze_fork (u ''a'') eleven_world)) = Some ls
              \<and> length ls \<le> 10)"
proof -
  let ?t = "[(repo_url (u ''a''), Obj (bare_repo 0)),
             (commits_url (u ''a''), Arr (replicate 11 (commit_item (u ''wip''))))]"
  let ?p = "print_no_newline (u ''Analyzing '' @ u ''a'' @ u ''...'')"
  let ?w1 = "snd (fetch_github_api (repo_url (u ''a'')) (?p eleven_world))"
  let ?b = "branches_step (u ''a'') (new_result (u ''a'') (bare_repo 0)) ?w1"
  have n1: "net ?w1 = net (serving ?t)"
    by (simp add: fetch_world eleven_world_def del: u_Cons)
  have h1: "fetch_github_api (repo_url (u ''a'')) (?p eleven_world) = (Inr (Obj (bare_repo 0)), ?w1)"
    by (rule prod_eqI) (simp_all add: served_fetch [of _ ?t] eleven_world_def del: u_Cons)
  have h2: "?b = (fst ?b, snd ?b)"
    by simp
  have h3: "fst (fetch_github_api (commits_url (u ''a'')) (snd ?b))
     = Inr (Arr (replicate 11 (commit_item (u ''wip''))))"
    using n1 by (simp add: served_fetch [of _ ?t] url_simps del: u_Cons)
  have "map commit (replicate 11 (commit_item (u ''wip'')))
     = map (\<lambda>m. Some \<lparr>message = Some m\<rparr>) (replicate 11 (u ''wip''))"
    by (simp add: commit_item_def no_keys_def del: u_Cons)
  then have h4: "commit_first_lines (replicate 11 (commit_item (u ''wip'')))
     = Inr (map first_line (replicate 11 (u ''wip'')))"
    by (rule commit_first_lines_msgs)
  have fl: "first_line (u ''wip'') = u ''wip''"
    by (simp add: first_line_def)
  have rc: "recent_commits (fst (analyze_fork (u ''a'') eleven_world))
      = Some (replicate 11 (u ''wip''))"
    unfolding analyze_fork_commits [OF h1 h2] h3
    by (simp add: items_of_def h4 fl del: u_Cons)
  show ?thesis
    unfolding rc by simp
qed

section \<open>The driver: claim C7\<close>

text \<open>
  C7. A run of \<open>main\<close> in which the console list and the report's list differ. The
  network gives one star to the first owner of \<open>FORK_OWNERS\<close>, two stars to the second and
  answers 404 to every other request. The run ends normally. The report written to the
  file ends with the recommendations \<open>1. pichimail\<close>, \<open>2. MorpheusEMH\<close> (sorted by stars);
  the console, under \<open>Top 5 Most Interesting:\<close>, prints \<open>1. MorpheusEMH\<close>,
  \<open>2. pichimail\<close> (the order of the owner list): \<open>main\<close> filters the records again and
  does not sort them.
\<close>

theorem C7_console_order:
  "\<exists>pre front.
     fst (main stars_world) = Inr ()
   \<and> trace (snd (main stars_world)) = pre @
       [WriteFile report_file
          (join [10] (front @
             [u ''### Top 5 Forks to Review:'',
              u ''1. **pichimail** - 2 stars'',
              u ''   https://github.com/pichimail/1code'',
              u ''2. **MorpheusEMH** - 1 stars'',
              u ''   https://github.com/MorpheusEMH/1code''])),
        Print (u ''Report saved to: M:/claude_tools/1code/FORK_ANALYSIS_REPORT.md'' @ [10]),
        Print [10],
        Print ([0x2713] @ u '' Found 2 interesting forks out of 100 total'' @ [10]),
        Print ([10] @ u ''Top 5 Most Interesting:'' @ [10]),
        Print (u ''1. MorpheusEMH (https://github.com/MorpheusEMH/1code)'' @ [10]),
        Print (u ''   '' @ [0x2B50] @ u '' 1 stars'' @ [10]),
        Print (u ''2. pichimail (https://github.com/pichimail/1code)'' @ [10]),
        Print (u ''   '' @ [0x2B50] @ u '' 2 stars'' @ [10])]"
proof -
  let ?T = "[(repo_url (u ''MorpheusEMH''), Obj (bare_repo 1)),
             (repo_url (u ''pichimail''), Obj (bare_repo 2))]"
  let ?w0 = "print []
              (print (u ''Analyzing '' @ str_int (int (length FORK_OWNERS)) @ u '' forks...'')
                (print (replicate 60 61)
                  (print (u ''1code Fork Analysis'')
                    (print (replicate 60 61) stars_world))))"
  let ?res = "map (\<lambda>n. fst (analyze_fork n stars_world)) FORK_OWNERS"
  have sw: "serving ?T = stars_world"
    by (simp add: stars_world_def)
  have n0: "net ?w0 = net (serving ?T)" and o0: "open_error ?w0 = None"
    by (simp_all add: stars_world_def serving_def del: u_Cons)
  from analyze_loop_served [OF n0, of FORK_OWNERS "[]"] obtain w1 where
    loop: "analyze_loop FORK_OWNERS [] ?w0 = (?res, w1)" and o1: "open_error w1 = None"
    unfolding sw using o0 by auto
  have fi: "filter get_interesting ?res
      = [starred_fork ''MorpheusEMH'' 1, starred_fork ''pichimail'' 2]"
    unfolding stars_results by simp
  have len: "int (length ?res) = 100"
    by (simp add: FORK_OWNERS_def del: u_Cons)
  let ?w2 = "print (u ''Generating report...'') (print [] w1)"
  from report_two [OF fi, of "now_text ?w2"] obtain front where
    gen: "generate_report (now_text ?w2) ?res
      = Inr (join [10] (front @
             [u ''### Top 5 Forks to Review:'',
              u ''1. **pichimail** - 2 stars'',
              u ''   https://github.com/pichimail/1code'',
              u ''2. **MorpheusEMH** - 1 stars'',
              u ''   https://github.com/MorpheusEMH/1code'']))"
    unfolding stars_texts by blast
  let ?report = "join [10] (front @
             [u ''### Top 5 Forks to Review:'',
              u ''1. **pichimail** - 2 stars'',
              u ''   https://github.com/pichimail/1code'',
              u ''2. **MorpheusEMH** - 1 stars'',
              u ''   https://github.com/MorpheusEMH/1code''])"
  let ?w3 = "emit (WriteFile report_file ?report) ?w2"
  have wr: "write_report ?report ?w2 = (Inr (), ?w3)"
    using o1 by (simp add: write_report_def)
  let ?w4 = "print [] (print (u ''Report saved to: '' @ report_file) ?w3)"
  from print_summary_two [OF fi, of ?w4] obtain w5 where
    ps: "print_summary ?res ?w4 = (Inr (), w5)"
    and tr: "trace w5 = trace ?w4 @
        [Print ([0x2713] @ u '' Found 2 interesting forks out of 100 total'' @ [10]),
         Print ([10] @ u ''Top 5 Most Interesting:'' @ [10]),
         Print (u ''1. MorpheusEMH (https://github.com/MorpheusEMH/1code)'' @ [10]),
         Print (u ''   '' @ [0x2B50] @ u '' 1 stars'' @ [10]),
         Print (u ''2. pichimail (https://github.com/pichimail/1code)'' @ [10]),
         Print (u ''   '' @ [0x2B50] @ u '' 2 stars'' @ [10])]"
    unfolding len stars_texts by blast
  have m: "main stars_world = (Inr (), w5)"
    unfolding main_def main_with_def loop
    by (simp only: prod.case Let_def gen sum.case wr ps)
  have t4: "trace ?w4 = (trace w1 @ [Print [10], Print (u ''Generating report...'' @ [10])])
      @ [WriteFile report_file ?report,
         Print (u ''Report saved to: M:/claude_tools/1code/FORK_ANALYSIS_REPORT.md'' @ [10]),
         Print [10]]"
    using stars_texts(10) by (simp del: u_Cons)
  show ?thesis
    unfolding m fst_conv snd_conv tr t4
    by (intro exI [of _ "trace w1 @ [Print [10], Print (u ''Generating report...'' @ [10])]"]
          exI [of _ front]) simp
qed

end
